theory Spec2Isabelle
  imports Main
begin

section \<open>Strings and regular expressions\<close>

text \<open>
  A JavaScript string is modelled as a HOL \<open>string\<close>: one \<open>char\<close> per code unit, so
  \<open>length\<close> is the \<open>.length\<close> of the source and \<open>take\<close>/\<open>drop\<close> are \<open>slice\<close>.

  Every regular expression of the pattern tables carries the \<open>i\<close> flag and is built from
  ASCII characters only. Under that flag an ASCII letter of the pattern matches exactly
  its two ASCII cases and nothing else, so characters are compared after \<open>lowerc\<close>.
\<close>

definition lowerc :: "char \<Rightarrow> char" where
  "lowerc c =
     (case map_of (zip ''ABCDEFGHIJKLMNOPQRSTUVWXYZ'' ''abcdefghijklmnopqrstuvwxyz'') c of
        Some l \<Rightarrow> l
      | None \<Rightarrow> c)"

text \<open>
  \<open>toLowerCase\<close> and \<open>toUpperCase\<close>, on the code units below 256 that a \<open>char\<close> stands
  for: the letters are A to Z and, from 192 to 222 without the sign at 215, their
  accented capitals, each 32 below its small letter. The capital of the sharp s (223)
  is \<open>SS\<close>. The capitals of the letters at 181 and 255 are code units above 255, which
  this model of strings does not have; these two letters are left as they are.
\<close>

definition lower_char :: "char \<Rightarrow> char" where
  "lower_char c =
     (let n = (of_char c :: nat)
      in if (65 \<le> n \<and> n \<le> 90) \<or> (192 \<le> n \<and> n \<le> 222 \<and> n \<noteq> 215) then char_of (n + 32) else c)"

definition toLowerCase :: "string \<Rightarrow> string" where
  "toLowerCase s = map lower_char s"

definition upper_chars :: "char \<Rightarrow> string" where
  "upper_chars c =
     (let n = (of_char c :: nat)
      in if (97 \<le> n \<and> n \<le> 122) \<or> (224 \<le> n \<and> n \<le> 254 \<and> n \<noteq> 247) then [char_of (n - 32)]
         else if n = 223 then ''SS''
         else [c])"

definition toUpperCase :: "string \<Rightarrow> string" where
  "toUpperCase s = concat (map upper_chars s)"

text \<open>The class \<open>\s\<close>: tab, line feed, vertical tab, form feed, carriage return, space
  and the no-break space.\<close>

definition is_space :: "char \<Rightarrow> bool" where
  "is_space c = (c \<in> set [CHR 0x09, CHR 0x0A, CHR 0x0B, CHR 0x0C, CHR 0x0D, CHR 0x20, CHR 0xA0])"

text \<open>
  The fragment of the regular-expression language that the tables use: literal
  characters, \<open>\s\<close>, concatenation, alternation \<open>(a|b)\<close>, \<open>a?\<close>, \<open>a*\<close> and the end
  anchor \<open>$\<close>.
\<close>

datatype regex =
    Eps
  | Chr char
  | Space
  | Cat regex regex
  | Alt regex regex
  | Opt regex
  | Star regex
  | Eol

text \<open>
  \<open>rests r s\<close> lists what is left of \<open>s\<close> after each way of matching \<open>r\<close> at its start.
  An iteration of \<open>Star\<close> that consumes nothing is not repeated, as in the source
  language.
\<close>

function rests :: "regex \<Rightarrow> string \<Rightarrow> string list" where
  "rests Eps s = [s]"
| "rests (Chr c) s = (case s of [] \<Rightarrow> [] | x # xs \<Rightarrow> if lowerc x = lowerc c then [xs] else [])"
| "rests Space s = (case s of [] \<Rightarrow> [] | x # xs \<Rightarrow> if is_space x then [xs] else [])"
| "rests (Cat a b) s = concat (map (rests b) (rests a s))"
| "rests (Alt a b) s = rests a s @ rests b s"
| "rests (Opt a) s = rests a s @ [s]"
| "rests (Star a) s =
     concat (map (rests (Star a)) (filter (\<lambda>t. length t < length s) (rests a s))) @ [s]"
| "rests Eol s = (if s = [] then [s] else [])"
  by pat_completeness auto
termination
  by (relation "measures [\<lambda>(r, s). size r, \<lambda>(r, s). length s]") auto

fun tails :: "string \<Rightarrow> string list" where
  "tails [] = [[]]"
| "tails (x # xs) = (x # xs) # tails xs"

text \<open>\<open>RegExp.prototype.test\<close> without the \<open>g\<close> flag: is there a match starting anywhere?\<close>

definition test :: "regex \<Rightarrow> string \<Rightarrow> bool" where
  "test r s = list_ex (\<lambda>t. rests r t \<noteq> []) (tails s)"

text \<open>Notation for the tables: a literal word, a sequence, a group of alternative words,
  \<open>a+\<close>.\<close>

definition lit :: "string \<Rightarrow> regex" where
  "lit w = foldr (\<lambda>c r. Cat (Chr c) r) w Eps"

definition seq :: "regex list \<Rightarrow> regex" where
  "seq rs = foldr Cat rs Eps"

fun oneOf :: "string list \<Rightarrow> regex" where
  "oneOf [] = Eps"
| "oneOf [w] = lit w"
| "oneOf (w # ws) = Alt (lit w) (oneOf ws)"

definition plus :: "regex \<Rightarrow> regex" where
  "plus r = Cat r (Star r)"

section \<open>Types (types/hotspot.ts)\<close>

datatype HotspotCategory = Auth | Api | DatabaseRules | SecretsEnv | Dependencies | DataFlow

text \<open>The string each category is in the source.\<close>

fun category_string :: "HotspotCategory \<Rightarrow> string" where
  "category_string Auth = ''auth''"
| "category_string Api = ''api''"
| "category_string DatabaseRules = ''database-rules''"
| "category_string SecretsEnv = ''secrets-env''"
| "category_string Dependencies = ''dependencies''"
| "category_string DataFlow = ''data-flow''"

datatype HotspotPriority = Critical | High | Medium

record ParsedFile =
  path :: string
  content :: string
  size_bytes :: int
  extension :: string

record CategoryPattern =
  category :: HotspotCategory
  priority :: HotspotPriority
  description :: string
  pathPatterns :: "regex list"
  contentPatterns :: "regex list"

record SkipPattern =
  name :: string
  pattern :: regex
  reason :: string

record SecurityHotspot =
  category :: HotspotCategory
  files :: "ParsedFile list"
  priority :: HotspotPriority
  reason :: string

record HotspotAnalysis =
  hotspots :: "SecurityHotspot list"
  skippedFiles :: "string list"
  totalFiles :: nat
  securityRelevantFiles :: nat

section \<open>The pattern tables (core/hotspot-collector.ts)\<close>

definition CATEGORY_PATTERNS :: "CategoryPattern list" where
  "CATEGORY_PATTERNS = [
     \<lparr> CategoryPattern.category = Auth,
       priority = Critical,
       description = ''Authentication, authorization, and session management'',
       pathPatterns = map lit [''auth'', ''login'', ''session'', ''middleware'', ''guard'',
         ''passport'', ''oauth'', ''jwt'', ''token''],
       contentPatterns = map lit [''verifyToken'', ''getServerSession'', ''useSession'',
         ''signIn'', ''signOut'', ''authenticate'', ''authorize'', ''isAuthenticated'',
         ''currentUser'', ''getUser'', ''requireAuth'', ''checkPermission'', ''bcrypt'',
         ''argon2'', ''password'', ''credential''] \<rparr>,
     \<lparr> CategoryPattern.category = Api,
       priority = Critical,
       description = ''API routes and endpoints'',
       pathPatterns = [
         lit ''/api/'',
         seq [lit ''route'', Opt (Chr CHR ''s''), lit ''/''],
         seq [lit ''controller'', Opt (Chr CHR ''s''), lit ''/''],
         seq [lit ''handler'', Opt (Chr CHR ''s''), lit ''/''],
         seq [lit ''endpoint'', Opt (Chr CHR ''s''), lit ''/'']],
       contentPatterns = [
         lit ''NextRequest'',
         lit ''NextResponse'',
         seq [lit ''Request'', Star Space, lit '',''],
         seq [lit ''Response'', Star Space, lit '')''],
         lit ''express()'',
         seq [lit ''app.'', oneOf [''get'', ''post'', ''put'', ''patch'', ''delete'']],
         seq [lit ''router.'', oneOf [''get'', ''post'', ''put'', ''patch'', ''delete'']],
         lit ''createServerAction'',
         lit ''unstable_cache''] \<rparr>,
     \<lparr> CategoryPattern.category = DatabaseRules,
       priority = Critical,
       description = ''Database security rules and schemas'',
       pathPatterns = [
         lit ''firestore.rules'',
         lit ''storage.rules'',
         lit ''database.rules'',
         seq [lit ''.prisma'', Eol],
         lit ''schema.''],
       contentPatterns = [
         seq [lit ''allow'', plus Space,
              oneOf [''read'', ''write'', ''create'', ''update'', ''delete'']],
         lit ''rules_version'',
         lit ''@@map'',
         lit ''createClient'',
         lit ''supabase'',
         lit ''RLS''] \<rparr>,
     \<lparr> CategoryPattern.category = SecretsEnv,
       priority = High,
       description = ''Environment variables and secrets'',
       pathPatterns = [
         lit ''.env'',
         lit ''config.'',
         seq [lit ''secret'', Opt (Chr CHR ''s''), lit ''.''],
         seq [lit ''credential'', Opt (Chr CHR ''s''), lit ''.'']],
       contentPatterns = map lit [''process.env'', ''import.meta.env'', ''NEXT_PUBLIC_'',
         ''VITE_'', ''REACT_APP_'', ''API_KEY'', ''SECRET'', ''PASSWORD'', ''TOKEN'',
         ''PRIVATE_KEY'', ''DATABASE_URL'', ''MONGODB_URI'', ''REDIS_URL''] \<rparr>,
     \<lparr> CategoryPattern.category = Dependencies,
       priority = High,
       description = ''Package dependencies'',
       pathPatterns = [seq [lit ''package.json'', Eol]],
       contentPatterns = [] \<rparr>,
     \<lparr> CategoryPattern.category = DataFlow,
       priority = Medium,
       description = ''User input handling and data flow'',
       pathPatterns = [],
       contentPatterns = map lit [''req.body'', ''req.query'', ''req.params'',
         ''request.json()'', ''formData'', ''searchParams'', ''useSearchParams'', ''params.'',
         ''dangerouslySetInnerHTML'', ''innerHTML'', ''eval('', ''new Function('', ''exec('',
         ''spawn('', ''child_process''] \<rparr>
   ]"

definition SKIP_PATTERNS :: "SkipPattern list" where
  "SKIP_PATTERNS = [
     \<lparr> name = ''node_modules'', pattern = lit ''node_modules'',
       reason = ''Third-party dependencies'' \<rparr>,
     \<lparr> name = ''dist'', pattern = lit ''/dist/'', reason = ''Build output'' \<rparr>,
     \<lparr> name = ''build'', pattern = lit ''/build/'', reason = ''Build output'' \<rparr>,
     \<lparr> name = ''.next'', pattern = lit ''/.next/'', reason = ''Next.js build output'' \<rparr>,
     \<lparr> name = ''coverage'', pattern = lit ''/coverage/'', reason = ''Test coverage'' \<rparr>,
     \<lparr> name = ''test files'',
       pattern = seq [lit ''.'', oneOf [''test'', ''spec''], lit ''.'',
                      oneOf [''ts'', ''tsx'', ''js'', ''jsx''], Eol],
       reason = ''Test files'' \<rparr>,
     \<lparr> name = ''__tests__'', pattern = lit ''__tests__'', reason = ''Test directory'' \<rparr>,
     \<lparr> name = ''storybook'',
       pattern = seq [lit ''.stories.'', oneOf [''ts'', ''tsx'', ''js'', ''jsx''], Eol],
       reason = ''Storybook files'' \<rparr>,
     \<lparr> name = ''type declarations'', pattern = seq [lit ''.d.ts'', Eol],
       reason = ''Type declarations only'' \<rparr>,
     \<lparr> name = ''CSS'',
       pattern = seq [lit ''.'', oneOf [''css'', ''scss'', ''sass'', ''less''], Eol],
       reason = ''Stylesheets'' \<rparr>,
     \<lparr> name = ''images'',
       pattern = seq [lit ''.'',
                      oneOf [''png'', ''jpg'', ''jpeg'', ''gif'', ''svg'', ''ico'', ''webp''], Eol],
       reason = ''Images'' \<rparr>,
     \<lparr> name = ''fonts'',
       pattern = seq [lit ''.'', oneOf [''woff'', ''woff2'', ''ttf'', ''eot'', ''otf''], Eol],
       reason = ''Fonts'' \<rparr>,
     \<lparr> name = ''markdown'', pattern = seq [lit ''.'', oneOf [''md'', ''mdx''], Eol],
       reason = ''Documentation'' \<rparr>,
     \<lparr> name = ''UI components'', pattern = lit ''components/ui/'',
       reason = ''UI component library'' \<rparr>,
     \<lparr> name = ''public assets'', pattern = lit ''/public/'', reason = ''Static assets'' \<rparr>,
     \<lparr> name = ''lock files'',
       pattern = oneOf [''package-lock'', ''yarn.lock'', ''pnpm-lock''],
       reason = ''Lock files'' \<rparr>
   ]"

section \<open>The hotspot collector (core/hotspot-collector.ts)\<close>

text \<open>\<open>shouldSkipFile\<close>: the first skip pattern that matches the path, or \<open>null\<close>.\<close>

definition shouldSkipFile :: "ParsedFile \<Rightarrow> SkipPattern option" where
  "shouldSkipFile file = find (\<lambda>p. test (pattern p) (path file)) SKIP_PATTERNS"

text \<open>\<open>categorizeFile\<close>: one entry per row of the table whose path patterns match the
  path or whose content patterns match the content, in table order.\<close>

definition categorizeFile :: "ParsedFile \<Rightarrow> HotspotCategory list" where
  "categorizeFile file =
     map CategoryPattern.category
       (filter (\<lambda>p.
          (let pathMatch = list_ex (\<lambda>r. test r (path file)) (pathPatterns p);
               contentMatch = list_ex (\<lambda>r. test r (content file)) (contentPatterns p)
           in pathMatch \<or> contentMatch))
        CATEGORY_PATTERNS)"

definition getCategoryPriority :: "HotspotCategory \<Rightarrow> HotspotPriority" where
  "getCategoryPriority c =
     (case find (\<lambda>p. CategoryPattern.category p = c) CATEGORY_PATTERNS of
        Some p \<Rightarrow> CategoryPattern.priority p
      | None \<Rightarrow> Medium)"

definition getCategoryDescription :: "HotspotCategory \<Rightarrow> string" where
  "getCategoryDescription c =
     (case find (\<lambda>p. CategoryPattern.category p = c) CATEGORY_PATTERNS of
        Some p \<Rightarrow> (if description p = [] then category_string c else description p)
      | None \<Rightarrow> category_string c)"

text \<open>
  A JavaScript \<open>Map\<close> iterates in the order in which its keys were first set, so it is
  an association list: \<open>js_set\<close> replaces the value of a key in place and appends a new
  key at the end.
\<close>

type_synonym ('k, 'v) js_map = "('k \<times> 'v) list"

fun js_set :: "('k, 'v) js_map \<Rightarrow> 'k \<Rightarrow> 'v \<Rightarrow> ('k, 'v) js_map" where
  "js_set [] k v = [(k, v)]"
| "js_set ((k', v') # m) k v = (if k' = k then (k, v) # m else (k', v') # js_set m k v)"

definition js_get :: "('k, 'v) js_map \<Rightarrow> 'k \<Rightarrow> 'v option" where
  "js_get m k = map_of m k"

definition js_has :: "('k, 'v) js_map \<Rightarrow> 'k \<Rightarrow> bool" where
  "js_has m k = (map_of m k \<noteq> None)"

text \<open>The body of the inner loop: create the bucket if the category has none, then push
  the file onto it. (After the \<open>set\<close> the \<open>get\<close> always finds the bucket.)\<close>

definition push_file ::
  "ParsedFile \<Rightarrow> HotspotCategory \<Rightarrow> (HotspotCategory, ParsedFile list) js_map
     \<Rightarrow> (HotspotCategory, ParsedFile list) js_map" where
  "push_file file c hotspotMap =
     (let m = (if \<not> js_has hotspotMap c then js_set hotspotMap c [] else hotspotMap)
      in case js_get m c of
           Some bucket \<Rightarrow> js_set m c (bucket @ [file])
         | None \<Rightarrow> m)"

text \<open>The loop over the files, on the pair of the map and the skip list.\<close>

fun collect_loop ::
  "ParsedFile list \<Rightarrow> (HotspotCategory, ParsedFile list) js_map \<times> string list
     \<Rightarrow> (HotspotCategory, ParsedFile list) js_map \<times> string list" where
  "collect_loop [] st = st"
| "collect_loop (file # rest) (hotspotMap, skipped) =
     (case shouldSkipFile file of
        Some skipReason \<Rightarrow> collect_loop rest (hotspotMap, skipped @ [path file])
      | None \<Rightarrow> collect_loop rest (fold (push_file file) (categorizeFile file) hotspotMap, skipped))"

definition priorityOrder :: "HotspotPriority \<Rightarrow> nat" where
  "priorityOrder p = (case p of Critical \<Rightarrow> 0 | High \<Rightarrow> 1 | Medium \<Rightarrow> 2)"

text \<open>A \<open>Set\<close> of strings, in insertion order; its \<open>size\<close> is the length of the list.\<close>

definition set_add :: "'a list \<Rightarrow> 'a \<Rightarrow> 'a list" where
  "set_add s x = (if x \<in> set s then s else s @ [x])"

text \<open>
  \<open>collectSecurityHotspots\<close>. \<open>Array.prototype.sort\<close> is stable, and so is \<open>sort_key\<close>
  (insertion sort): hotspots of equal priority keep the order the map gave them.
\<close>

definition collectSecurityHotspots :: "ParsedFile list \<Rightarrow> HotspotAnalysis" where
  "collectSecurityHotspots fs =
     (let (hotspotMap, skipped) = collect_loop fs ([], []);
          built = map (\<lambda>(c, categoryFiles).
                    \<lparr> category = c, files = categoryFiles,
                      priority = getCategoryPriority c,
                      reason = getCategoryDescription c \<rparr>) hotspotMap;
          sorted_hotspots = sort_key (\<lambda>h. priorityOrder (priority h)) built;
          securityRelevantSet =
            fold (\<lambda>hotspot s. fold (\<lambda>file s'. set_add s' (path file)) (files hotspot) s)
              sorted_hotspots []
      in \<lparr> hotspots = sorted_hotspots,
           skippedFiles = skipped,
           totalFiles = length fs,
           securityRelevantFiles = length securityRelevantSet \<rparr>)"

definition filterHotspots :: "HotspotAnalysis \<Rightarrow> HotspotCategory list \<Rightarrow> HotspotAnalysis" where
  "filterHotspots analysis categories =
     (let categorySet = set categories
      in analysis\<lparr> hotspots := filter (\<lambda>h. category h \<in> categorySet) (hotspots analysis) \<rparr>)"

section \<open>The prompt builder (core/prompt-builder.ts)\<close>

abbreviation (input) nl :: char where
  "nl \<equiv> CHR 0x0A"

text \<open>\<open>Array.prototype.join\<close>.\<close>

fun join_with :: "string \<Rightarrow> string list \<Rightarrow> string" where
  "join_with sep [] = []"
| "join_with sep [x] = x"
| "join_with sep (x # y # ys) = x @ sep @ join_with sep (y # ys)"

text \<open>\<open>String(n)\<close> on an integer: its decimal digits, with a sign when negative.\<close>

definition digit_char :: "nat \<Rightarrow> char" where
  "digit_char d = ''0123456789'' ! (d mod 10)"

fun show_nat :: "nat \<Rightarrow> string" where
  "show_nat n = (if n < 10 then [digit_char n] else show_nat (n div 10) @ [digit_char (n mod 10)])"

declare show_nat.simps [simp del]

definition show_int :: "int \<Rightarrow> string" where
  "show_int i = (if i < 0 then CHR ''-'' # show_nat (nat (- i)) else show_nat (nat i))"

definition truncateContent :: "string \<Rightarrow> nat \<Rightarrow> string" where
  "truncateContent c maxChars =
     (if length c \<le> maxChars then c else take maxChars c @ nl # ''... [truncated]'')"

definition maxTotalChars :: nat where
  "maxTotalChars = 100000"

text \<open>The block pushed for one file, around its (truncated) content, and the line
  pushed when the budget is exceeded.\<close>

definition file_block :: "ParsedFile \<Rightarrow> string \<Rightarrow> string" where
  "file_block file body =
     nl # ''### File: '' @ path file @ nl # ''```''
       @ (if drop 1 (extension file) = [] then ''text'' else drop 1 (extension file))
       @ nl # body @ nl # ''```''"

definition omitted_line :: "int \<Rightarrow> string" where
  "omitted_line k = nl # ''... and '' @ show_int k @ '' more files (truncated for size)''"

text \<open>
  The loop of \<open>formatFilesForPrompt\<close> over the sorted files, on the pair of \<open>parts\<close>
  and \<open>totalChars\<close>; \<open>n\<close> is \<open>sorted.length\<close>. The budget is tested before a file is
  taken, and \<open>totalChars\<close> counts the truncated contents.
\<close>

fun format_loop :: "nat \<Rightarrow> ParsedFile list \<Rightarrow> string list \<times> nat \<Rightarrow> string list" where
  "format_loop n [] (parts, totalChars) = parts"
| "format_loop n (file # rest) (parts, totalChars) =
     (if totalChars > maxTotalChars
      then parts @ [omitted_line (int n - int (length parts))]
      else (let body = truncateContent (content file) 8000
            in format_loop n rest (parts @ [file_block file body], totalChars + length body)))"

definition formatParts :: "ParsedFile list \<Rightarrow> string list" where
  "formatParts fs = (let sorted = sort_key size_bytes fs in format_loop (length sorted) sorted ([], 0))"

definition formatFilesForPrompt :: "ParsedFile list \<Rightarrow> string" where
  "formatFilesForPrompt fs = join_with [nl] (formatParts fs)"

definition buildUserPrompt :: "SecurityHotspot \<Rightarrow> string" where
  "buildUserPrompt hotspot =
     ''Analyze these '' @ category_string (category hotspot)
       @ '' files for security vulnerabilities:'' @ [nl, nl]
       @ formatFilesForPrompt (files hotspot)
       @ [nl, nl] @ ''Respond with a JSON object containing your findings.''"

subsection \<open>Parsing the response\<close>

text \<open>
  A number, as far as this code looks at it: a finite value \<open>m * 2 ^ e\<close>, an infinity
  or NaN. Values as \<open>JSON.parse\<close> gives them; an object keeps its members in order.
\<close>

datatype js_number = Finite int int | PosInf | NegInf | NaN

datatype json =
    JNull
  | JBool bool
  | JNumber js_number
  | JString string
  | JArray "json list"
  | JObject "(string \<times> json) list"

fun truthy :: "json \<Rightarrow> bool" where
  "truthy JNull = False"
| "truthy (JBool b) = b"
| "truthy (JNumber (Finite m e)) = (m \<noteq> 0)"
| "truthy (JNumber NaN) = False"
| "truthy (JNumber x) = True"
| "truthy (JString s) = (s \<noteq> [])"
| "truthy (JArray xs) = True"
| "truthy (JObject kvs) = True"

datatype js_exception = TypeError | SyntaxError | Error string

text \<open>
  Reading a property of a parsed value: \<open>null\<close> throws, an object gives the member (the
  last one of that name) or \<open>undefined\<close>, every other value gives \<open>undefined\<close> for the
  names this program reads (none is \<open>length\<close>, an index or a name that objects inherit).
\<close>

fun get_property :: "json \<Rightarrow> string \<Rightarrow> js_exception + json option" where
  "get_property JNull k = Inl TypeError"
| "get_property (JObject kvs) k = Inr (map_of (rev kvs) k)"
| "get_property v k = Inr None"

text \<open>
  \<open>response.match(/\{[\s\S]*\}/)\<close>: from the first \<open>{\<close> to the last \<open>}\<close> after it, or
  no match.
\<close>

definition match_braces :: "string \<Rightarrow> string option" where
  "match_braces response =
     (let t = dropWhile (\<lambda>c. c \<noteq> CHR ''{'') response
      in if t \<noteq> [] \<and> CHR ''}'' \<in> set (tl t)
         then Some (rev (dropWhile (\<lambda>c. c \<noteq> CHR ''}'') (rev t)))
         else None)"

record AISecurityResponse =
  findings :: "json list"
  summary :: json

text \<open>The body of the \<open>try\<close> block; \<open>JSON_parse\<close> is the platform's parser, \<open>None\<close> where
  it throws.\<close>

definition parse_matched :: "(string \<Rightarrow> json option) \<Rightarrow> string \<Rightarrow> js_exception + AISecurityResponse" where
  "parse_matched JSON_parse text =
     (case JSON_parse text of
        None \<Rightarrow> Inl SyntaxError
      | Some parsed \<Rightarrow>
          (case get_property parsed ''findings'' of
             Inl e \<Rightarrow> Inl e
           | Inr fv \<Rightarrow>
               (case get_property parsed ''summary'' of
                  Inl e \<Rightarrow> Inl e
                | Inr sv \<Rightarrow>
                    Inr \<lparr> findings = (case fv of Some (JArray xs) \<Rightarrow> xs | _ \<Rightarrow> []),
                          summary = (case sv of
                                       Some v \<Rightarrow> if truthy v then v else JString ''Analysis complete''
                                     | None \<Rightarrow> JString ''Analysis complete'') \<rparr>)))"

definition parseAIResponse :: "(string \<Rightarrow> json option) \<Rightarrow> string \<Rightarrow> AISecurityResponse" where
  "parseAIResponse JSON_parse response =
     (case match_braces response of
        None \<Rightarrow> \<lparr> findings = [], summary = JString ''Could not parse AI response'' \<rparr>
      | Some jsonMatch \<Rightarrow>
          (case parse_matched JSON_parse jsonMatch of
             Inr r \<Rightarrow> r
           | Inl e \<Rightarrow> \<lparr> findings = [], summary = JString ''Could not parse AI response as JSON'' \<rparr>))"

section \<open>The CWE client (security-data/cwe-api.ts)\<close>


text \<open>
  The string a template literal makes of a value. \<open>num\<close> is the platform's rendering of
  a number. An array is its elements joined by commas, \<open>null\<close> elements as the empty
  string; \<open>undefined\<close> is the word itself.
\<close>

function js_string :: "(js_number \<Rightarrow> string) \<Rightarrow> json \<Rightarrow> string"
  and js_join :: "(js_number \<Rightarrow> string) \<Rightarrow> json list \<Rightarrow> string"
where
  "js_string num JNull = ''null''"
| "js_string num (JBool b) = (if b then ''true'' else ''false'')"
| "js_string num (JNumber n) = num n"
| "js_string num (JString s) = s"
| "js_string num (JArray xs) = js_join num xs"
| "js_string num (JObject members) = ''[object Object]''"
| "js_join num [] = []"
| "js_join num [x] = (if x = JNull then [] else js_string num x)"
| "js_join num (x # y # ys) =
     (if x = JNull then [] else js_string num x) @ '','' @ js_join num (y # ys)"
  by pat_completeness auto
termination
  by (relation "measure (\<lambda>x. case x of
        Inl (num, v) \<Rightarrow> size v
      | Inr (num, xs) \<Rightarrow> size_list size xs)")
     auto
















section \<open>The npm audit adapter (core/npm-audit.ts)\<close>

datatype Severity = SevCritical | SevHigh | SevMedium | SevLow | SevInfo

record DependencyVulnerability =
  packageName :: string
  version :: string
  severity :: Severity
  title :: string
  dv_description :: string
  cveIds :: "string list"
  patchedVersion :: "string option"
  url :: "string option"

datatype via_item = ViaString string | ViaObject

datatype fix_available = FixBool bool | FixObject string string bool

text \<open>One entry of the report. \<open>severity\<close> is the string npm wrote; \<open>via\<close> is \<open>None\<close>
  where it is not an array.\<close>

record NpmAuditVulnerability =
  npm_severity :: string
  via :: "via_item list option"
  range :: string
  fixAvailable :: fix_available

record AuditCounts =
  info :: int
  low :: int
  moderate :: int
  high :: int
  critical :: int
  total :: int

record NpmAuditResult =
  vulnerabilities :: "(string \<times> NpmAuditVulnerability) list"
  metadata_vulnerabilities :: AuditCounts

definition mapSeverity :: "string \<Rightarrow> Severity" where
  "mapSeverity npmSeverity =
     (if npmSeverity = ''critical'' then SevCritical
      else if npmSeverity = ''high'' then SevHigh
      else if npmSeverity = ''moderate'' then SevMedium
      else if npmSeverity = ''low'' then SevLow
      else if npmSeverity = ''info'' then SevInfo
      else SevLow)"

text \<open>The body of the loop of \<open>transformAuditResult\<close>, for one entry of the report.\<close>

definition transformEntry :: "string \<times> NpmAuditVulnerability \<Rightarrow> DependencyVulnerability" where
  "transformEntry e =
     (let pkg = fst e; vuln = snd e;
          patched = (case fixAvailable vuln of
                       FixObject n v major \<Rightarrow> Some v
                     | FixBool b \<Rightarrow> None);
          fallback = ''Vulnerability in '' @ pkg;
          descr = (case via vuln of
                     Some items \<Rightarrow>
                       (let joined = join_with '', ''
                              (concat (map (\<lambda>v. case v of ViaString s \<Rightarrow> [s] | ViaObject \<Rightarrow> []) items))
                        in if joined = [] then fallback else joined)
                   | None \<Rightarrow> fallback)
      in \<lparr> packageName = pkg,
           version = range vuln,
           severity = mapSeverity (npm_severity vuln),
           title = toUpperCase (npm_severity vuln) @ '': '' @ pkg,
           dv_description = descr,
           cveIds = [],
           patchedVersion = patched,
           url = None \<rparr>)"

definition transformAuditResult :: "NpmAuditResult \<Rightarrow> DependencyVulnerability list" where
  "transformAuditResult result = map transformEntry (vulnerabilities result)"

record NpmAuditResponse =
  audit_vulnerabilities :: "DependencyVulnerability list"
  audit_summary :: AuditCounts
  audit_error :: "string option"

definition no_counts :: AuditCounts where
  "no_counts = \<lparr> info = 0, low = 0, moderate = 0, high = 0, critical = 0, total = 0 \<rparr>"

text \<open>
  What running the command can give: it exits with code 0, with its two outputs; or the
  promise rejects with an error that may carry the standard output, and a message.
\<close>

datatype exec_outcome = Exited string string | Failed "string option" string

text \<open>
  The world of \<open>runNpmAudit\<close>: the separator of the platform's paths (\<open>/\<close> on POSIX, the
  backslash on win32), which paths exist, what running a command in a directory gives,
  and what \<open>JSON.parse\<close> makes of a report (\<open>Inl\<close> the message of the exception where
  parsing, or reading the report's members, throws).
\<close>

record audit_world =
  path_sep :: char
  existsSync :: "string \<Rightarrow> bool"
  execAsync :: "string \<Rightarrow> string \<Rightarrow> exec_outcome"
  parseReport :: "string \<Rightarrow> string + NpmAuditResult"

text \<open>
  \<open>path.join\<close> of the platform on a directory and a name: the two with the platform's
  separator between them. The platform also normalises the result (it drops a doubled
  separator or a \<open>.\<close> segment of the directory, and on win32 turns each \<open>/\<close> into a
  backslash). The results are used here only to ask whether a path exists, and, in the
  file reader, through the name after the last \<open>/\<close> and through the extension; the entries
  of a directory are names without a separator.
\<close>

definition joinPath :: "char \<Rightarrow> string \<Rightarrow> string \<Rightarrow> string" where
  "joinPath sep dir entry = (if dir = [] then entry else dir @ sep # entry)"

definition audit_of_report :: "NpmAuditResult \<Rightarrow> NpmAuditResponse" where
  "audit_of_report result =
     \<lparr> audit_vulnerabilities = transformAuditResult result,
       audit_summary = metadata_vulnerabilities result,
       audit_error = None \<rparr>"

definition audit_failure :: "string \<Rightarrow> NpmAuditResponse" where
  "audit_failure msg =
     \<lparr> audit_vulnerabilities = [], audit_summary = no_counts, audit_error = Some msg \<rparr>"

definition runNpmAudit :: "audit_world \<Rightarrow> string \<Rightarrow> bool \<Rightarrow> NpmAuditResponse" where
  "runNpmAudit w dir includeDevDependencies =
     (let hasPackageLock = existsSync w (joinPath (path_sep w) dir ''package-lock.json'');
          hasYarnLock = existsSync w (joinPath (path_sep w) dir ''yarn.lock'');
          hasPnpmLock = existsSync w (joinPath (path_sep w) dir ''pnpm-lock.yaml'')
      in if \<not> hasPackageLock \<and> \<not> hasYarnLock \<and> \<not> hasPnpmLock then
           audit_failure ''No lock file found. Run npm install, yarn install, or pnpm install first.''
         else
           (let command = ''npm audit --json'' @ (if \<not> includeDevDependencies then '' --omit=dev'' else [])
            in case execAsync w command dir of
                 Exited stdout stderr \<Rightarrow>
                   (if stderr \<noteq> [] \<and> stdout = [] then audit_failure stderr
                    else (case parseReport w stdout of
                            Inr result \<Rightarrow> audit_of_report result
                          | Inl msg \<Rightarrow> audit_failure (''npm audit failed: '' @ msg)))
               | Failed out msg \<Rightarrow>
                   (case out of
                      Some stdout \<Rightarrow>
                        (if stdout \<noteq> [] then
                           (case parseReport w stdout of
                              Inr result \<Rightarrow> audit_of_report result
                            | Inl m \<Rightarrow> audit_failure (''npm audit failed: '' @ msg))
                         else audit_failure (''npm audit failed: '' @ msg))
                    | None \<Rightarrow> audit_failure (''npm audit failed: '' @ msg))))"

section \<open>The file reader (core/file-reader.ts)\<close>

definition CODE_EXTENSIONS :: "string list" where
  "CODE_EXTENSIONS = [
     ''.ts'', ''.tsx'', ''.js'', ''.jsx'', ''.mjs'', ''.cjs'',
     ''.json'', ''.yaml'', ''.yml'',
     ''.env'', ''.env.local'', ''.env.development'', ''.env.production'',
     ''.prisma'', ''.graphql'', ''.gql'',
     ''.rules'',
     ''.sql'',
     ''.py'', ''.rb'', ''.go'', ''.java'', ''.rs'', ''.php'']"

definition SKIP_DIRECTORIES :: "string list" where
  "SKIP_DIRECTORIES = [
     ''node_modules'', ''.git'', ''.next'', ''.nuxt'', ''dist'', ''build'', ''out'',
     ''coverage'', ''.turbo'', ''.cache'', ''__pycache__'', ''vendor'', ''.idea'', ''.vscode'']"

definition SKIP_FILES :: "string list" where
  "SKIP_FILES = [''package-lock.json'', ''yarn.lock'', ''pnpm-lock.yaml'', ''bun.lockb'', ''.DS_Store'']"

definition MAX_FILE_SIZE :: int where
  "MAX_FILE_SIZE = 1024 * 1024"

text \<open>String methods: \<open>startsWith\<close>, \<open>endsWith\<close>, \<open>includes\<close>, and the last piece of
  \<open>split('/')\<close>.\<close>

definition startsWith :: "string \<Rightarrow> string \<Rightarrow> bool" where
  "startsWith s p = (take (length p) s = p)"

definition endsWith :: "string \<Rightarrow> string \<Rightarrow> bool" where
  "endsWith s p = (length p \<le> length s \<and> drop (length s - length p) s = p)"

definition includes_str :: "string \<Rightarrow> string \<Rightarrow> bool" where
  "includes_str s p = list_ex (\<lambda>t. startsWith t p) (tails s)"

definition last_segment :: "string \<Rightarrow> string" where
  "last_segment p = rev (takeWhile (\<lambda>c. c \<noteq> CHR ''/'') (rev p))"

text \<open>
  \<open>path.extname\<close> of the platform: in the last segment of the path (trailing separators
  aside), from the last dot to the end; empty when there is no dot, when the only dot
  starts the segment, and for the segment \<open>..\<close>. The platform's separator and \<open>/\<close> both
  end a segment.
\<close>

definition extname :: "char \<Rightarrow> string \<Rightarrow> string" where
  "extname sep p =
     (let is_sep = (\<lambda>c. c = CHR ''/'' \<or> c = sep);
          base = rev (takeWhile (\<lambda>c. \<not> is_sep c) (dropWhile is_sep (rev p)));
          after = rev (takeWhile (\<lambda>c. c \<noteq> CHR ''.'') (rev base));
          before = take (length base - length after - 1) base
      in if CHR ''.'' \<notin> set base \<or> before = [] \<or> base = ''..'' then []
         else CHR ''.'' # after)"

text \<open>\<open>shouldIncludeFile\<close>. The file name is what follows the last \<open>/\<close>, on every
  platform.\<close>

definition shouldIncludeFile :: "char \<Rightarrow> string \<Rightarrow> int \<Rightarrow> bool" where
  "shouldIncludeFile sep filePath sz =
     (let ext = toLowerCase (extname sep filePath);
          fileName = last_segment filePath
      in if fileName \<in> set SKIP_FILES then False
         else if sz > MAX_FILE_SIZE then False
         else if ext \<in> set CODE_EXTENSIONS then True
         else if startsWith fileName ''.env'' \<or> fileName = ''.gitignore'' then True
         else if ext = [] \<and> (includes_str fileName ''config'' \<or> includes_str fileName ''rc''
                   \<or> fileName = ''Dockerfile'' \<or> fileName = ''Makefile'') then True
         else False)"

text \<open>
  The file system as the reader sees it. A file has the size \<open>statSync\<close> reports and
  its text (\<open>None\<close> where \<open>statSync\<close> or \<open>readFileSync\<close> throws). A directory has its
  entries in the order \<open>readdirSync\<close> lists them, and a flag: can it be listed? Anything
  else (a link, a socket) is neither.
\<close>

datatype fsnode =
    FileNode int "string option"
  | DirNode bool "(string \<times> fsnode) list"
  | OtherNode

datatype scan_error =
    PathDoesNotExist string
  | NotFileOrDirectory string
  | ReadFailed string
  | NoInput
  | NoFilesFound
  | DepsTypeError

definition maxFiles :: nat where
  "maxFiles = 500"

text \<open>
  \<open>readDirectoryRecursive\<close> on a directory and \<open>read_entries\<close>, its loop over the
  entries. \<open>sep\<close> is the separator of the platform's paths, \<open>dirPath\<close> is the path of the
  directory and \<open>rel\<close> the same path relative to the base (empty at the base), so that
  \<open>joinPath sep rel name\<close> is \<open>relative(basePath, fullPath)\<close>. A subdirectory that cannot be
  listed throws; a file that cannot be read is passed over.
\<close>

function readDirectoryRecursive ::
    "char \<Rightarrow> string \<Rightarrow> string \<Rightarrow> fsnode \<Rightarrow> ParsedFile list \<Rightarrow> scan_error + ParsedFile list"
  and read_entries ::
    "char \<Rightarrow> string \<Rightarrow> string \<Rightarrow> (string \<times> fsnode) list \<Rightarrow> ParsedFile list \<Rightarrow> scan_error + ParsedFile list"
where
  "readDirectoryRecursive sep dirPath rel node fs =
     (if length fs \<ge> maxFiles then Inr fs
      else (case node of
              DirNode listable entries \<Rightarrow>
                if listable then read_entries sep dirPath rel entries fs else Inl (ReadFailed dirPath)
            | _ \<Rightarrow> Inl (ReadFailed dirPath)))"
| "read_entries sep dirPath rel [] fs = Inr fs"
| "read_entries sep dirPath rel ((entryName, entryNode) # others) fs =
     (if length fs \<ge> maxFiles then Inr fs
      else (let fullPath = joinPath sep dirPath entryName
            in case entryNode of
                 DirNode listable entries \<Rightarrow>
                   if entryName \<notin> set SKIP_DIRECTORIES then
                     (case readDirectoryRecursive sep fullPath (joinPath sep rel entryName) entryNode fs of
                        Inl e \<Rightarrow> Inl e
                      | Inr fs' \<Rightarrow> read_entries sep dirPath rel others fs')
                   else read_entries sep dirPath rel others fs
               | FileNode sz text \<Rightarrow>
                   (case text of
                      Some txt \<Rightarrow>
                        if shouldIncludeFile sep fullPath sz then
                          read_entries sep dirPath rel others
                            (fs @ [\<lparr> path = joinPath sep rel entryName, content = txt,
                                     size_bytes = sz, extension = toLowerCase (extname sep fullPath) \<rparr>])
                        else read_entries sep dirPath rel others fs
                    | None \<Rightarrow> read_entries sep dirPath rel others fs)
               | OtherNode \<Rightarrow> read_entries sep dirPath rel others fs))"
  by pat_completeness auto
termination
  by (relation "measure (\<lambda>x. case x of
        Inl (sep, dirPath, rel, node, fs) \<Rightarrow> size node
      | Inr (sep, dirPath, rel, entries, fs) \<Rightarrow> size_list (size_prod (\<lambda>x. 0) size) entries)")
     auto

text \<open>\<open>readFilesFromPath\<close>: \<open>lookup\<close> is the file system, from a path to what is there.\<close>

definition readFilesFromPath ::
  "char \<Rightarrow> (string \<Rightarrow> fsnode option) \<Rightarrow> string \<Rightarrow> scan_error + ParsedFile list" where
  "readFilesFromPath sep lookup p =
     (case lookup p of
        None \<Rightarrow> Inl (PathDoesNotExist p)
      | Some (FileNode sz text) \<Rightarrow>
          (case text of
             None \<Rightarrow> Inl (ReadFailed p)
           | Some txt \<Rightarrow>
               Inr [\<lparr> path = (if last_segment p = [] then p else last_segment p), content = txt,
                      size_bytes = sz, extension = toLowerCase (extname sep p) \<rparr>])
      | Some (DirNode listable entries) \<Rightarrow>
          readDirectoryRecursive sep p [] (DirNode listable entries) []
      | Some OtherNode \<Rightarrow> Inl (NotFileOrDirectory p))"

record FileInput =
  fi_path :: string
  fi_content :: string

definition parseFileInputs :: "char \<Rightarrow> FileInput list \<Rightarrow> ParsedFile list" where
  "parseFileInputs sep inputs =
     map (\<lambda>f. \<lparr> path = fi_path f, content = fi_content f,
               size_bytes = int (length (fi_content f)),
               extension = toLowerCase (extname sep (fi_path f)) \<rparr>) inputs"

text \<open>\<open>getPackageJson\<close>: the first file that is a \<open>package.json\<close>, parsed; \<open>null\<close> when
  there is none or it does not parse.\<close>

definition getPackageJson :: "(string \<Rightarrow> json option) \<Rightarrow> ParsedFile list \<Rightarrow> json option" where
  "getPackageJson JSON_parse fs =
     (case find (\<lambda>f. path f = ''package.json'' \<or> endsWith (path f) ''/package.json'') fs of
        None \<Rightarrow> None
      | Some packageJsonFile \<Rightarrow> JSON_parse (content packageJsonFile))"

section \<open>The scan tool (tools/scan-codebase.ts)\<close>

record ProjectContext =
  hasPackageJson :: bool
  hasPackageLock :: bool
  framework :: "string option"
  database :: "string option"
  authProvider :: "string option"
  isTypeScript :: bool

text \<open>
  The dependency names of the manifest, as \<open>detectProjectContext\<close> computes \<open>deps\<close>:
  the member \<open>dependencies\<close> of a parsed manifest that is an object, or the empty object.
\<close>

definition deps_of :: "json option \<Rightarrow> json" where
  "deps_of packageJson =
     (case packageJson of
        Some (JObject members) \<Rightarrow>
          (case map_of (rev members) ''dependencies'' of
             Some v \<Rightarrow> if truthy v then v else JObject []
           | None \<Rightarrow> JObject [])
      | _ \<Rightarrow> JObject [])"

text \<open>\<open>name in deps\<close>: on an object, is there such a member; on an array, no (none of
  the names asked is an index or \<open>length\<close>); on any other value the operator throws.\<close>

fun has_key :: "string \<Rightarrow> json \<Rightarrow> js_exception + bool" where
  "has_key k (JObject members) = Inr (k \<in> set (map fst members))"
| "has_key k (JArray xs) = Inr False"
| "has_key k v = Inl TypeError"

text \<open>A chain \<open>a in deps ? x : b in deps ? y : ... : undefined\<close>, each test a
  disjunction of names, on an object or array \<open>deps\<close>.\<close>

fun first_of :: "json \<Rightarrow> (string list \<times> string) list \<Rightarrow> string option" where
  "first_of deps [] = None"
| "first_of deps ((names, v) # more_rows) =
     (if list_ex (\<lambda>n. has_key n deps = Inr True) names then Some v else first_of deps more_rows)"

definition is_lock_path :: "string \<Rightarrow> bool" where
  "is_lock_path p =
     (includes_str p ''package-lock.json'' \<or> includes_str p ''yarn.lock''
        \<or> includes_str p ''pnpm-lock.yaml'')"

definition detectProjectContext ::
  "(string \<Rightarrow> json option) \<Rightarrow> ParsedFile list \<Rightarrow> scan_error + ProjectContext" where
  "detectProjectContext JSON_parse fs =
     (let packageJson = getPackageJson JSON_parse fs;
          deps = deps_of packageJson
      in case has_key ''next'' deps of
           Inl e \<Rightarrow> Inl DepsTypeError
         | Inr b \<Rightarrow>
             Inr \<lparr> hasPackageJson = (case packageJson of None \<Rightarrow> False | Some v \<Rightarrow> truthy v),
                   hasPackageLock = list_ex (\<lambda>f. is_lock_path (path f)) fs,
                   framework = first_of deps [
                     ([''next''], ''nextjs''),
                     ([''express''], ''express''),
                     ([''@nestjs/core''], ''nestjs''),
                     ([''fastify''], ''fastify''),
                     ([''react''], ''react'')],
                   database = first_of deps [
                     ([''firebase'', ''@firebase/app''], ''firebase''),
                     ([''@supabase/supabase-js''], ''supabase''),
                     ([''mongodb'', ''mongoose''], ''mongodb''),
                     ([''pg'', ''@prisma/client''], ''postgresql''),
                     ([''mysql2''], ''mysql'')],
                   authProvider = first_of deps [
                     ([''@clerk/nextjs''], ''clerk''),
                     ([''auth0'', ''@auth0/nextjs-auth0''], ''auth0''),
                     ([''next-auth''], ''nextauth''),
                     ([''firebase''], ''firebase''),
                     ([''@supabase/supabase-js''], ''supabase'')],
                   isTypeScript = list_ex (\<lambda>f. extension f = ''.ts'' \<or> extension f = ''.tsx'') fs \<rparr>)"

text \<open>\<open>CATEGORY_CWES\<close>, with the constants of \<open>COMMON_CWES\<close> written out.\<close>

fun CATEGORY_CWES :: "HotspotCategory \<Rightarrow> string list" where
  "CATEGORY_CWES Auth = [''287'', ''862'', ''384'', ''613'']"
| "CATEGORY_CWES Api = [''862'', ''89'', ''918'', ''20'']"
| "CATEGORY_CWES DatabaseRules = [''284'', ''285'', ''862'']"
| "CATEGORY_CWES SecretsEnv = [''798'', ''540'', ''200'']"
| "CATEGORY_CWES Dependencies = [''1035'', ''1104'']"
| "CATEGORY_CWES DataFlow = [''89'', ''78'', ''79'', ''22'']"

record HotspotFile =
  hf_path :: string
  hf_content :: string
  hf_size :: int

record CategoryHotspot =
  ch_category :: HotspotCategory
  ch_priority :: HotspotPriority
  ch_reason :: string
  ch_files :: "HotspotFile list"
  relevantCWEs :: "string list"

definition transformHotspot :: "SecurityHotspot \<Rightarrow> CategoryHotspot" where
  "transformHotspot hotspot =
     \<lparr> ch_category = category hotspot,
       ch_priority = priority hotspot,
       ch_reason = reason hotspot,
       ch_files = map (\<lambda>f. \<lparr> hf_path = path f, hf_content = content f, hf_size = size_bytes f \<rparr>)
                    (files hotspot),
       relevantCWEs = map (\<lambda>i. ''CWE-'' @ i) (CATEGORY_CWES (category hotspot)) \<rparr>"

record ScanCodebaseInput =
  in_path :: "string option"
  in_files :: "FileInput list option"
  in_categories :: "HotspotCategory list option"
  severityThreshold :: "string option"

record ScanSummary =
  sum_totalFiles :: nat
  sum_securityRelevantFiles :: nat
  sum_skippedFiles :: nat
  hotspotCategories :: nat
  vulnerableDependencies :: nat

record ScanCodebaseResult =
  res_hotspots :: "CategoryHotspot list"
  dependencyVulnerabilities :: "DependencyVulnerability list"
  projectContext :: ProjectContext
  res_summary :: ScanSummary
  scanDuration :: int

text \<open>
  The world of a scan: the file system, the platform's \<open>JSON.parse\<close>, the world of the
  audit (its separator is the platform's, for the scan as well), and the two readings of
  the clock.
\<close>

record scan_world =
  lookup :: "string \<Rightarrow> fsnode option"
  JSON_parse :: "string \<Rightarrow> json option"
  audit :: audit_world
  startTime :: int
  endTime :: int

text \<open>The first step of \<open>executeScanCodebase\<close>: the files and \<open>basePath\<close>.\<close>

definition get_files :: "scan_world \<Rightarrow> ScanCodebaseInput \<Rightarrow> scan_error + (ParsedFile list \<times> string option)" where
  "get_files w input =
     (case in_path input of
        Some p \<Rightarrow>
          if p \<noteq> [] then
            (case readFilesFromPath (path_sep (audit w)) (lookup w) p of
               Inl e \<Rightarrow> Inl e
             | Inr fs \<Rightarrow> Inr (fs, Some p))
          else
            (case in_files input of
               Some given \<Rightarrow> if given \<noteq> [] then Inr (parseFileInputs (path_sep (audit w)) given, None) else Inl NoInput
             | None \<Rightarrow> Inl NoInput)
      | None \<Rightarrow>
          (case in_files input of
             Some given \<Rightarrow> if given \<noteq> [] then Inr (parseFileInputs (path_sep (audit w)) given, None) else Inl NoInput
           | None \<Rightarrow> Inl NoInput))"

text \<open>
  The audit step: \<open>runNpmAudit\<close> is called only with a \<open>basePath\<close> and a lock file among
  the files. It gives the vulnerabilities kept and the directories audited.
\<close>

definition audit_step ::
  "audit_world \<Rightarrow> string option \<Rightarrow> ProjectContext \<Rightarrow> DependencyVulnerability list \<times> string list" where
  "audit_step aw basePath ctx =
     (case basePath of
        Some dir \<Rightarrow>
          if hasPackageLock ctx then
            (let auditResult = runNpmAudit aw dir False
             in (case audit_error auditResult of
                   None \<Rightarrow> audit_vulnerabilities auditResult
                 | Some msg \<Rightarrow> if msg = [] then audit_vulnerabilities auditResult else [],
                 [dir]))
          else ([], [])
      | None \<Rightarrow> ([], []))"

text \<open>
  \<open>executeScanCodebase\<close>: the error thrown, or the result together with the directories
  on which \<open>runNpmAudit\<close> was called.
\<close>

definition executeScanCodebase ::
  "scan_world \<Rightarrow> ScanCodebaseInput \<Rightarrow> scan_error + (ScanCodebaseResult \<times> string list)" where
  "executeScanCodebase w input =
     (case get_files w input of
        Inl e \<Rightarrow> Inl e
      | Inr (fs, basePath) \<Rightarrow>
          if fs = [] then Inl NoFilesFound
          else
            (case detectProjectContext (JSON_parse w) fs of
               Inl e \<Rightarrow> Inl e
             | Inr ctx \<Rightarrow>
                 (let collected = collectSecurityHotspots fs;
                      analysis = (case in_categories input of
                                    Some cs \<Rightarrow> if cs \<noteq> [] then filterHotspots collected cs else collected
                                  | None \<Rightarrow> collected);
                      (found, audited) = audit_step (audit w) basePath ctx;
                      hs = map transformHotspot (hotspots analysis)
                  in Inr (\<lparr> res_hotspots = hs,
                            dependencyVulnerabilities = found,
                            projectContext = ctx,
                            res_summary = \<lparr> sum_totalFiles = totalFiles analysis,
                                            sum_securityRelevantFiles = securityRelevantFiles analysis,
                                            sum_skippedFiles = length (skippedFiles analysis),
                                            hotspotCategories = length hs,
                                            vulnerableDependencies = length found \<rparr>,
                            scanDuration = endTime w - startTime w \<rparr>,
                          audited))))"

section \<open>Notions used in the statements\<close>

text \<open>The bucket of a category in the map, the files that are not skipped, the
  distinct elements of a list in the order of their first occurrence, and the order in
  which the categories first match a file that is not skipped: files in scan order, and
  for one file the rows of the table in order.\<close>

definition bucket :: "(HotspotCategory, ParsedFile list) js_map \<Rightarrow> HotspotCategory \<Rightarrow> ParsedFile list" where
  "bucket m c = (case map_of m c of None \<Rightarrow> [] | Some b \<Rightarrow> b)"

definition kept :: "ParsedFile list \<Rightarrow> ParsedFile list" where
  "kept fs = filter (\<lambda>f. shouldSkipFile f = None) fs"

definition first_seen :: "'a list \<Rightarrow> 'a list" where
  "first_seen xs = fold (\<lambda>c ks. set_add ks c) xs []"

definition hotspot_of :: "ParsedFile list \<Rightarrow> HotspotCategory \<Rightarrow> SecurityHotspot" where
  "hotspot_of fs c =
     \<lparr> category = c,
       files = filter (\<lambda>f. shouldSkipFile f = None \<and> c \<in> set (categorizeFile f)) fs,
       priority = getCategoryPriority c,
       reason = getCategoryDescription c \<rparr>"

definition seen_order :: "ParsedFile list \<Rightarrow> HotspotCategory list" where
  "seen_order fs = first_seen (concat (map categorizeFile (filter (\<lambda>f. shouldSkipFile f = None) fs)))"

text \<open>A path matches some skip pattern; a file matches some pattern of the row of a
  category.\<close>

definition skip_match :: "string \<Rightarrow> bool" where
  "skip_match p = (\<exists>sp \<in> set SKIP_PATTERNS. test (pattern sp) p)"

definition category_match :: "HotspotCategory \<Rightarrow> ParsedFile \<Rightarrow> bool" where
  "category_match c f =
     (\<exists>row \<in> set CATEGORY_PATTERNS. CategoryPattern.category row = c \<and>
        ((\<exists>r \<in> set (pathPatterns row). test r (path f))
          \<or> (\<exists>r \<in> set (contentPatterns row). test r (content f))))"



text \<open>
  For the prompt: the block of a file as it is serialized, the characters counted against
  the budget after the first \<open>k\<close> files, and how many files the loop serializes when it
  starts with \<open>t\<close> characters counted.
\<close>

definition serialized :: "ParsedFile \<Rightarrow> string" where
  "serialized f = file_block f (truncateContent (content f) 8000)"

definition running_total :: "ParsedFile list \<Rightarrow> nat \<Rightarrow> nat" where
  "running_total fs k = sum_list (map (\<lambda>f. length (truncateContent (content f) 8000)) (take k fs))"

fun taken :: "ParsedFile list \<Rightarrow> nat \<Rightarrow> nat" where
  "taken [] t = 0"
| "taken (f # fs) t =
     (if t > maxTotalChars then 0
      else Suc (taken fs (t + length (truncateContent (content f) 8000))))"

definition sample_file :: "nat \<Rightarrow> ParsedFile" where
  "sample_file n =
     \<lparr> path = ''a.ts'', content = replicate n CHR ''a'', size_bytes = int n, extension = ''.ts'' \<rparr>"

text \<open>A report with one entry, and a world in which the audit runs and prints it.\<close>

definition sample_report :: NpmAuditResult where
  "sample_report =
     \<lparr> vulnerabilities =
         [(''lodash'', \<lparr> npm_severity = ''high'', via = Some [ViaString ''minimist'', ViaObject],
                         range = ''<4.17.21'', fixAvailable = FixObject ''lodash'' ''4.17.21'' False \<rparr>)],
       metadata_vulnerabilities =
         \<lparr> info = 0, low = 0, moderate = 0, high = 1, critical = 0, total = 1 \<rparr> \<rparr>"

definition sample_audit_world :: audit_world where
  "sample_audit_world =
     \<lparr> path_sep = CHR ''/'',
       existsSync = (\<lambda>p. p = ''/repo/package-lock.json''),
       execAsync = (\<lambda>command dir. Failed (Some ''report'') ''Command failed''),
       parseReport = (\<lambda>text. if text = ''report'' then Inr sample_report else Inl ''Unexpected token'') \<rparr>"


text \<open>The response of the example, the object text in it, and a parser that knows this
  one text.\<close>

definition example_response :: string where
  \<open>example_response = ''here you go: {"findings": [], "summary": "ok"}''\<close>

definition example_object :: string where
  \<open>example_object = ''{"findings": [], "summary": "ok"}''\<close>

definition example_parse :: "string \<Rightarrow> json option" where
  "example_parse text =
     (if text = example_object
      then Some (JObject [(''findings'', JArray []), (''summary'', JString ''ok'')])
      else None)"












section \<open>Properties\<close>

subsection \<open>The hotspot collector\<close>

text \<open>
  Claim C7. For every analysis and every category list, \<open>filterHotspots\<close> returns the
  input hotspots whose category is among the requested ones, in their original order,
  and leaves \<open>totalFiles\<close>, \<open>skippedFiles\<close> and \<open>securityRelevantFiles\<close> as they were.
\<close>

theorem filterHotspots_frame:
  "hotspots (filterHotspots a cs) = filter (\<lambda>h. category h \<in> set cs) (hotspots a)
   \<and> totalFiles (filterHotspots a cs) = totalFiles a
   \<and> skippedFiles (filterHotspots a cs) = skippedFiles a
   \<and> securityRelevantFiles (filterHotspots a cs) = securityRelevantFiles a"
  by (simp add: filterHotspots_def)

text \<open>The map, the loop and the result.\<close>

lemma map_of_js_set: "map_of (js_set m k v) = (map_of m)(k \<mapsto> v)"
  by (induction m k v rule: js_set.induct) (auto simp: fun_eq_iff)

lemma keys_js_set: "map fst (js_set m k v) = set_add (map fst m) k"
  by (induction m k v rule: js_set.induct) (auto simp: set_add_def)

lemma set_add_idem: "set_add (set_add s x) x = set_add s x"
  by (simp add: set_add_def)

lemma keys_push_file: "map fst (push_file f c m) = set_add (map fst m) c"
  by (auto simp: push_file_def js_has_def js_get_def Let_def map_of_js_set keys_js_set set_add_idem
      split: option.splits)

lemma map_of_push_file: "map_of (push_file f c m) = (map_of m)(c \<mapsto> bucket m c @ [f])"
  by (auto simp: push_file_def js_has_def js_get_def Let_def map_of_js_set bucket_def fun_eq_iff
      split: option.splits)

lemma bucket_push_file: "bucket (push_file f c m) c' = (if c' = c then bucket m c @ [f] else bucket m c')"
  by (simp add: bucket_def map_of_push_file)

lemma keys_fold_push: "map fst (fold (push_file f) cs m) = fold (\<lambda>c ks. set_add ks c) cs (map fst m)"
  by (induction cs arbitrary: m) (simp_all add: keys_push_file)

lemma bucket_fold_push:
  "distinct cs \<Longrightarrow> bucket (fold (push_file f) cs m) c = (if c \<in> set cs then bucket m c @ [f] else bucket m c)"
  by (induction cs arbitrary: m) (auto simp: bucket_push_file)

lemma skipped_collect_loop:
  "snd (collect_loop fs (m, sk)) = sk @ map path (filter (\<lambda>f. shouldSkipFile f \<noteq> None) fs)"
  by (induction fs arbitrary: m sk) (auto split: option.splits)

lemma keys_collect_loop:
  "map fst (fst (collect_loop fs (m, sk))) =
     fold (\<lambda>c ks. set_add ks c) (concat (map categorizeFile (kept fs))) (map fst m)"
  by (induction fs arbitrary: m sk) (auto simp: kept_def keys_fold_push split: option.splits)

lemma distinct_table: "distinct (map CategoryPattern.category CATEGORY_PATTERNS)"
  by (simp add: CATEGORY_PATTERNS_def)

lemma distinct_categorizeFile: "distinct (categorizeFile f)"
  unfolding categorizeFile_def by (rule distinct_map_filter) (rule distinct_table)

lemma bucket_collect_loop:
  "bucket (fst (collect_loop fs (m, sk))) c =
     bucket m c @ filter (\<lambda>f. c \<in> set (categorizeFile f)) (kept fs)"
  by (induction fs arbitrary: m sk)
     (auto simp: kept_def bucket_fold_push distinct_categorizeFile split: option.splits)

lemma set_fold_set_add: "set (fold (\<lambda>c ks. set_add ks c) xs ks) = set ks \<union> set xs"
  by (induction xs arbitrary: ks) (auto simp: set_add_def)

lemma distinct_fold_set_add: "distinct ks \<Longrightarrow> distinct (fold (\<lambda>c ks. set_add ks c) xs ks)"
  by (induction xs arbitrary: ks) (auto simp: set_add_def)

lemma set_first_seen: "set (first_seen xs) = set xs"
  by (simp add: first_seen_def set_fold_set_add)

lemma distinct_first_seen: "distinct (first_seen xs)"
  by (simp add: first_seen_def distinct_fold_set_add)

lemma alist_by_keys:
  "(\<And>c b. (c, b) \<in> set m \<Longrightarrow> b = g c) \<Longrightarrow> m = map (\<lambda>c. (c, g c)) (map fst m)"
  by (induction m) auto

lemma hotspotMap_char:
  "fst (collect_loop fs ([], [])) =
     map (\<lambda>c. (c, filter (\<lambda>f. shouldSkipFile f = None \<and> c \<in> set (categorizeFile f)) fs))
       (first_seen (concat (map categorizeFile (kept fs))))"
proof -
  let ?m = "fst (collect_loop fs ([], []))"
  have keys: "map fst ?m = first_seen (concat (map categorizeFile (kept fs)))"
    by (simp add: keys_collect_loop first_seen_def)
  have "b = filter (\<lambda>f. shouldSkipFile f = None \<and> c \<in> set (categorizeFile f)) fs"
    if "(c, b) \<in> set ?m" for c b
  proof -
    have "distinct (map fst ?m)" by (simp add: keys distinct_first_seen)
    with that have "map_of ?m c = Some b" by simp
    then have "b = bucket ?m c" by (simp add: bucket_def)
    also have "\<dots> = filter (\<lambda>f. c \<in> set (categorizeFile f)) (kept fs)"
      using bucket_collect_loop [of fs "[]" "[]" c] by (simp add: bucket_def)
    finally show ?thesis by (simp add: kept_def conj_commute)
  qed
  then have "?m = map (\<lambda>c. (c, filter (\<lambda>f. shouldSkipFile f = None \<and> c \<in> set (categorizeFile f)) fs)) (map fst ?m)"
    by (rule alist_by_keys)
  then show ?thesis by (simp only: keys)
qed

lemma insort_key_map: "insort_key f (g x) (map g xs) = map g (insort_key (\<lambda>y. f (g y)) x xs)"
  by (induction xs) auto

lemma sort_key_map: "sort_key f (map g xs) = map g (sort_key (\<lambda>y. f (g y)) xs)"
  by (induction xs) (auto simp: insort_key_map)

lemma hotspots_char:
  "hotspots (collectSecurityHotspots fs) =
     map (hotspot_of fs) (sort_key (\<lambda>c. priorityOrder (getCategoryPriority c)) (seen_order fs))"
proof -
  obtain m sk where loop: "collect_loop fs ([], []) = (m, sk)"
    by (cases "collect_loop fs ([], [])")
  have m: "m = map (\<lambda>c. (c, filter (\<lambda>f. shouldSkipFile f = None \<and> c \<in> set (categorizeFile f)) fs))
                 (seen_order fs)"
    using hotspotMap_char [of fs] by (simp add: loop seen_order_def kept_def)
  have built: "map (\<lambda>(c, categoryFiles).
          \<lparr> category = c, files = categoryFiles, priority = getCategoryPriority c,
            reason = getCategoryDescription c \<rparr>) m
        = map (hotspot_of fs) (seen_order fs)"
    by (subst m) (simp add: hotspot_of_def comp_def)
  have "hotspots (collectSecurityHotspots fs) =
          sort_key (\<lambda>h. priorityOrder (priority h)) (map (hotspot_of fs) (seen_order fs))"
    by (simp add: collectSecurityHotspots_def loop Let_def built)
  also have "\<dots> = map (hotspot_of fs)
                     (sort_key (\<lambda>c. priorityOrder (priority (hotspot_of fs c))) (seen_order fs))"
    by (rule sort_key_map)
  finally show ?thesis by (simp add: hotspot_of_def)
qed

lemma skippedFiles_char:
  "skippedFiles (collectSecurityHotspots fs) = map path (filter (\<lambda>f. shouldSkipFile f \<noteq> None) fs)"
  using skipped_collect_loop [of fs "[]" "[]"]
  by (simp add: collectSecurityHotspots_def split_beta Let_def)

lemma set_fold_paths:
  "set (fold (\<lambda>file s'. set_add s' (path file)) fls s) = set s \<union> path ` set fls"
  by (induction fls arbitrary: s) (auto simp: set_add_def)

lemma distinct_fold_paths:
  "distinct s \<Longrightarrow> distinct (fold (\<lambda>file s'. set_add s' (path file)) fls s)"
  by (induction fls arbitrary: s) (auto simp: set_add_def)

lemma set_fold_hotspots:
  "set (fold (\<lambda>hotspot s. fold (\<lambda>file s'. set_add s' (path file)) (files hotspot) s) hs s)
     = set s \<union> (\<Union>h \<in> set hs. path ` set (files h))"
  by (induction hs arbitrary: s) (auto simp: set_fold_paths)

lemma distinct_fold_hotspots:
  "distinct s \<Longrightarrow>
   distinct (fold (\<lambda>hotspot s. fold (\<lambda>file s'. set_add s' (path file)) (files hotspot) s) hs s)"
  by (induction hs arbitrary: s) (auto simp: distinct_fold_paths)

text \<open>
  Claim C1. For every list of files, \<open>securityRelevantFiles\<close> is the number of distinct
  paths over all hotspots of the result, not the sum of the hotspots' file counts.
\<close>

theorem securityRelevantFiles_distinct_paths:
  "securityRelevantFiles (collectSecurityHotspots fs)
     = card (\<Union>h \<in> set (hotspots (collectSecurityHotspots fs)). path ` set (files h))"
proof -
  define hs where "hs = hotspots (collectSecurityHotspots fs)"
  define s where "s = fold (\<lambda>hotspot s. fold (\<lambda>file s'. set_add s' (path file)) (files hotspot) s) hs []"
  have "securityRelevantFiles (collectSecurityHotspots fs) = length s"
    by (simp add: s_def hs_def collectSecurityHotspots_def split_beta Let_def)
  also have "\<dots> = card (set s)"
    by (simp add: s_def distinct_card distinct_fold_hotspots)
  also have "set s = (\<Union>h \<in> set hs. path ` set (files h))"
    by (simp add: s_def set_fold_hotspots)
  finally show ?thesis by (simp add: hs_def)
qed

lemma shouldSkipFile_iff: "shouldSkipFile f = None \<longleftrightarrow> \<not> skip_match (path f)"
  by (auto simp: shouldSkipFile_def skip_match_def find_None_iff)

lemma categorizeFile_iff: "c \<in> set (categorizeFile f) \<longleftrightarrow> category_match c f"
  by (auto simp: categorizeFile_def category_match_def list_ex_iff Let_def)

lemma set_seen_order:
  "set (seen_order fs) = {c. \<exists>f \<in> set fs. \<not> skip_match (path f) \<and> category_match c f}"
  by (auto simp: seen_order_def set_first_seen shouldSkipFile_iff categorizeFile_iff)

lemma distinct_seen_order: "distinct (seen_order fs)"
  by (simp add: seen_order_def distinct_first_seen)

lemma hotspot_categories:
  "map category (hotspots (collectSecurityHotspots fs)) =
     sort_key (\<lambda>c. priorityOrder (getCategoryPriority c)) (seen_order fs)"
  by (simp add: hotspots_char hotspot_of_def comp_def)

lemma hotspot_in_result:
  "h \<in> set (hotspots (collectSecurityHotspots fs)) \<Longrightarrow>
     h = hotspot_of fs (category h) \<and> category h \<in> set (seen_order fs)"
  by (auto simp: hotspots_char hotspot_of_def)

lemma files_hotspot_of:
  "files (hotspot_of fs c) = filter (\<lambda>f. \<not> skip_match (path f) \<and> category_match c f) fs"
  by (simp add: hotspot_of_def shouldSkipFile_iff categorizeFile_iff)

text \<open>
  Claim C2. For every list of files: the skip list is the paths of the files whose path
  matches a skip pattern, in scan order, and no file with such a path is in any hotspot,
  whatever its content; the files of every hotspot are exactly the files that match no
  skip pattern and match a path or content pattern of the hotspot's category, in scan
  order; the hotspots have distinct categories, and every category matched by a file
  that is not skipped has its hotspot.
\<close>

theorem skip_and_membership:
  "skippedFiles (collectSecurityHotspots fs) = map path (filter (\<lambda>f. skip_match (path f)) fs)
   \<and> (\<forall>f \<in> set fs. skip_match (path f) \<longrightarrow>
         path f \<in> set (skippedFiles (collectSecurityHotspots fs))
         \<and> (\<forall>h \<in> set (hotspots (collectSecurityHotspots fs)). path f \<notin> path ` set (files h)))
   \<and> (\<forall>h \<in> set (hotspots (collectSecurityHotspots fs)).
         files h = filter (\<lambda>f. \<not> skip_match (path f) \<and> category_match (category h) f) fs)
   \<and> distinct (map category (hotspots (collectSecurityHotspots fs)))
   \<and> (\<forall>f \<in> set fs. \<forall>c. \<not> skip_match (path f) \<and> category_match c f \<longrightarrow>
         (\<exists>h \<in> set (hotspots (collectSecurityHotspots fs)). category h = c \<and> f \<in> set (files h)))"
proof -
  let ?r = "collectSecurityHotspots fs"
  have sk: "skippedFiles ?r = map path (filter (\<lambda>f. skip_match (path f)) fs)"
    by (simp add: skippedFiles_char shouldSkipFile_iff)
  have fl: "files h = filter (\<lambda>f. \<not> skip_match (path f) \<and> category_match (category h) f) fs"
    if "h \<in> set (hotspots ?r)" for h
    using hotspot_in_result [OF that] files_hotspot_of [of fs "category h"] by simp
  have a: "path f \<in> set (skippedFiles ?r)
           \<and> (\<forall>h \<in> set (hotspots ?r). path f \<notin> path ` set (files h))"
    if "f \<in> set fs" "skip_match (path f)" for f
    using that by (auto simp: sk fl)
  have d: "distinct (map category (hotspots ?r))"
    by (simp add: hotspot_categories distinct_seen_order)
  have e: "\<exists>h \<in> set (hotspots ?r). category h = c \<and> f \<in> set (files h)"
    if "f \<in> set fs" "\<not> skip_match (path f)" "category_match c f" for f c
  proof -
    have "c \<in> set (seen_order fs)" using that by (auto simp: set_seen_order)
    then have "c \<in> set (map category (hotspots ?r))" by (simp add: hotspot_categories)
    then obtain h where h: "h \<in> set (hotspots ?r)" "category h = c" by auto
    with that fl [OF h(1)] show ?thesis by auto
  qed
  show ?thesis using sk a fl d e by blast
qed

theorem skip_and_membership_witness:
  "skip_match ''README.md''
   \<and> ''README.md'' \<in> set (skippedFiles (collectSecurityHotspots
        [\<lparr>path = ''auth/login.ts'', content = ''authenticate('', size_bytes = 13, extension = ''.ts''\<rparr>,
         \<lparr>path = ''README.md'', content = ''password'', size_bytes = 8, extension = ''.md''\<rparr>]))
   \<and> \<not> skip_match ''auth/login.ts''
   \<and> category_match Auth
        \<lparr>path = ''auth/login.ts'', content = ''authenticate('', size_bytes = 13, extension = ''.ts''\<rparr>
   \<and> (\<exists>h \<in> set (hotspots (collectSecurityHotspots
        [\<lparr>path = ''auth/login.ts'', content = ''authenticate('', size_bytes = 13, extension = ''.ts''\<rparr>,
         \<lparr>path = ''README.md'', content = ''password'', size_bytes = 8, extension = ''.md''\<rparr>])).
          category h = Auth
          \<and> files h =
              [\<lparr>path = ''auth/login.ts'', content = ''authenticate('', size_bytes = 13, extension = ''.ts''\<rparr>])"
proof -
  let ?login = "\<lparr>path = ''auth/login.ts'', content = ''authenticate('', size_bytes = 13, extension = ''.ts''\<rparr>"
  let ?readme = "\<lparr>path = ''README.md'', content = ''password'', size_bytes = 8, extension = ''.md''\<rparr>"
  have 1: "skip_match ''README.md''" by code_simp
  have 2: "\<not> skip_match ''auth/login.ts''" by code_simp
  have 3: "category_match Auth ?login" by code_simp
  note inst = skip_and_membership [of "[?login, ?readme]"]
  from inst 2 3 obtain h where h: "h \<in> set (hotspots (collectSecurityHotspots [?login, ?readme]))"
      "category h = Auth"
    by auto
  with inst have "files h = filter (\<lambda>f. \<not> skip_match (path f) \<and> category_match Auth f) [?login, ?readme]"
    by auto
  with 1 2 3 have "files h = [?login]" by simp
  with h have 4: "\<exists>h \<in> set (hotspots (collectSecurityHotspots [?login, ?readme])).
      category h = Auth \<and> files h = [?login]"
    by blast
  from inst 1 have 5: "''README.md'' \<in> set (skippedFiles (collectSecurityHotspots [?login, ?readme]))"
    by simp
  show ?thesis using 1 2 3 4 5 by blast
qed



subsection \<open>The prompt builder\<close>

lemma format_loop_taken:
  "format_loop n fs (parts, t) =
     parts @ map serialized (take (taken fs t) fs)
       @ (if taken fs t < length fs
          then [omitted_line (int n - int (length parts + taken fs t))] else [])"
proof (induction fs arbitrary: parts t)
  case Nil
  then show ?case by simp
next
  case (Cons f fs)
  show ?case
  proof (cases "t > maxTotalChars")
    case True
    then show ?thesis by simp
  next
    case False
    then show ?thesis
      by (simp add: Cons.IH Let_def serialized_def)
  qed
qed

lemma running_total_0: "running_total fs 0 = 0"
  by (simp add: running_total_def)

lemma running_total_Suc:
  "running_total (f # fs) (Suc k) = length (truncateContent (content f) 8000) + running_total fs k"
  by (simp add: running_total_def)

lemma running_total_mono: "j \<le> k \<Longrightarrow> running_total fs j \<le> running_total fs k"
proof (induction fs arbitrary: j k)
  case Nil
  then show ?case by (simp add: running_total_def)
next
  case (Cons f fs)
  show ?case
  proof (cases j)
    case 0
    then show ?thesis by (simp add: running_total_0)
  next
    case (Suc j')
    with Cons.prems obtain k' where "k = Suc k'" "j' \<le> k'" by (cases k) auto
    with Suc Cons.IH [of j' k'] show ?thesis by (simp add: running_total_Suc)
  qed
qed

lemma taken_all:
  "(\<forall>j < length fs. t + running_total fs j \<le> maxTotalChars) \<Longrightarrow> taken fs t = length fs"
proof (induction fs arbitrary: t)
  case Nil
  then show ?case by simp
next
  case (Cons f fs)
  from Cons.prems have t: "t \<le> maxTotalChars"
    by (auto simp: running_total_0 dest: spec [of _ 0])
  have "\<forall>j < length fs. t + length (truncateContent (content f) 8000) + running_total fs j \<le> maxTotalChars"
  proof (intro allI impI)
    fix j assume "j < length fs"
    with Cons.prems have "t + running_total (f # fs) (Suc j) \<le> maxTotalChars" by simp
    then show "t + length (truncateContent (content f) 8000) + running_total fs j \<le> maxTotalChars"
      by (simp add: running_total_Suc)
  qed
  with Cons.IH t show ?case by simp
qed

lemma taken_stop:
  "k < length fs \<Longrightarrow> (\<forall>j < k. t + running_total fs j \<le> maxTotalChars)
     \<Longrightarrow> maxTotalChars < t + running_total fs k \<Longrightarrow> taken fs t = k"
proof (induction fs arbitrary: t k)
  case Nil
  then show ?case by simp
next
  case (Cons f fs)
  show ?case
  proof (cases k)
    case 0
    with Cons.prems show ?thesis by (simp add: running_total_0)
  next
    case (Suc k')
    with Cons.prems have t: "t \<le> maxTotalChars"
      by (auto simp: running_total_0 dest: spec [of _ 0])
    let ?t' = "t + length (truncateContent (content f) 8000)"
    have a: "k' < length fs" using Cons.prems Suc by simp
    have b: "\<forall>j < k'. ?t' + running_total fs j \<le> maxTotalChars"
    proof (intro allI impI)
      fix j assume "j < k'"
      with Cons.prems(2) Suc have "t + running_total (f # fs) (Suc j) \<le> maxTotalChars" by simp
      then show "?t' + running_total fs j \<le> maxTotalChars" by (simp add: running_total_Suc)
    qed
    have c: "maxTotalChars < ?t' + running_total fs k'"
      using Cons.prems(3) Suc by (simp add: running_total_Suc)
    from Cons.IH [OF a b c] t Suc show ?thesis by simp
  qed
qed

lemma formatParts_char:
  "formatParts fs =
     map serialized (take (taken (sort_key size_bytes fs) 0) (sort_key size_bytes fs))
       @ (if taken (sort_key size_bytes fs) 0 < length fs
          then [omitted_line (int (length fs) - int (taken (sort_key size_bytes fs) 0))] else [])"
  by (simp add: formatParts_def Let_def format_loop_taken)

lemma sort_key_replicate: "sort_key f (replicate n x) = replicate n x"
  by (induction n) (simp_all add: insort_is_Cons)

lemma running_total_replicate:
  "running_total (replicate n f) k = min k n * length (truncateContent (content f) 8000)"
  by (simp add: running_total_def sum_list_replicate min.commute)

lemma taken_le: "taken fs t \<le> length fs"
  by (induction fs arbitrary: t) simp_all

lemma taken_pos: "fs \<noteq> [] \<Longrightarrow> t \<le> maxTotalChars \<Longrightarrow> 0 < taken fs t"
  by (cases fs) simp_all

lemma truncateContent_length: "length (truncateContent c 8000) \<le> 8016"
  by (simp add: truncateContent_def)

lemma running_total_bound: "running_total fs k \<le> k * 8016"
proof (induction fs arbitrary: k)
  case Nil
  then show ?case by (simp add: running_total_def)
next
  case (Cons f fs)
  show ?case
  proof (cases k)
    case 0
    then show ?thesis by (simp add: running_total_0)
  next
    case (Suc j)
    with Cons.IH [of j] truncateContent_length [of "content f"] show ?thesis
      by (simp add: running_total_Suc)
  qed
qed

lemma running_total_small: "n \<le> 13 \<Longrightarrow> running_total fs (n - 1) \<le> 100000"
proof -
  assume "n \<le> 13"
  then have "(n - 1) * 8016 \<le> 12 * 8016" by (intro mult_le_mono1) simp
  with running_total_bound [of fs "n - 1"] show ?thesis by simp
qed

lemma join_with_Cons: "ys \<noteq> [] \<Longrightarrow> join_with sep (x # ys) = x @ sep @ join_with sep ys"
  by (cases ys) simp_all

lemma join_with_snoc: "join_with sep (xs @ [y]) = concat (map (\<lambda>x. x @ sep) xs) @ y"
  by (induction xs) (simp_all add: join_with_Cons)

lemma join_with_nonempty:
  "xs \<noteq> [] \<Longrightarrow> join_with sep xs = concat (map (\<lambda>x. x @ sep) (butlast xs)) @ last xs"
  using join_with_snoc [of sep "butlast xs" "last xs"] by simp

text \<open>The text of the files in a prompt, by the number of files that the loop takes.\<close>

lemma formatFilesForPrompt_cut:
  assumes "taken (sort_key size_bytes fs) 0 = k" and "k < length fs"
  shows "formatFilesForPrompt fs
     = concat (map (\<lambda>f. serialized f @ [nl]) (take k (sort_key size_bytes fs)))
         @ omitted_line (int (length fs) - int k)"
  using assms
  by (simp add: formatFilesForPrompt_def formatParts_char join_with_snoc comp_def)

lemma formatFilesForPrompt_all:
  assumes "taken (sort_key size_bytes fs) 0 = length fs" and "fs \<noteq> []"
  shows "formatFilesForPrompt fs
     = concat (map (\<lambda>f. serialized f @ [nl]) (butlast (sort_key size_bytes fs)))
         @ serialized (last (sort_key size_bytes fs))"
proof -
  let ?s = "sort_key size_bytes fs"
  from assms(2) have ne: "?s \<noteq> []" by (metis length_0_conv length_sort)
  from assms(1) have "formatFilesForPrompt fs = join_with [nl] (map serialized ?s)"
    by (simp add: formatFilesForPrompt_def formatParts_char)
  also from ne have "\<dots> = concat (map (\<lambda>x. x @ [nl]) (butlast (map serialized ?s)))
      @ last (map serialized ?s)"
    by (intro join_with_nonempty) simp
  also from ne have "\<dots> = concat (map (\<lambda>f. serialized f @ [nl]) (butlast ?s)) @ serialized (last ?s)"
    by (simp add: map_butlast [symmetric] last_map comp_def)
  finally show ?thesis .
qed

lemma formatFilesForPrompt_none: "formatFilesForPrompt [] = []"
  by (simp add: formatFilesForPrompt_def formatParts_def)

lemma taken_by_total:
  assumes "0 < k" and "k < length fs"
    and "running_total (sort_key size_bytes fs) (k - 1) \<le> 100000"
    and "100000 < running_total (sort_key size_bytes fs) k"
  shows "taken (sort_key size_bytes fs) 0 = k"
proof -
  let ?s = "sort_key size_bytes fs"
  have "\<forall>j < k. 0 + running_total ?s j \<le> maxTotalChars"
  proof (intro allI impI)
    fix j assume "j < k"
    then have "running_total ?s j \<le> running_total ?s (k - 1)" by (intro running_total_mono) simp
    with assms(3) show "0 + running_total ?s j \<le> maxTotalChars" by (simp add: maxTotalChars_def)
  qed
  with assms show ?thesis
    by (intro taken_stop) (simp_all add: maxTotalChars_def)
qed

lemma taken_all_by_total:
  assumes "running_total (sort_key size_bytes fs) (length fs - 1) \<le> 100000"
  shows "taken (sort_key size_bytes fs) 0 = length fs"
proof -
  let ?s = "sort_key size_bytes fs"
  have "\<forall>j < length ?s. 0 + running_total ?s j \<le> maxTotalChars"
  proof (intro allI impI)
    fix j assume "j < length ?s"
    then have "running_total ?s j \<le> running_total ?s (length fs - 1)"
      by (intro running_total_mono) simp
    with assms show "0 + running_total ?s j \<le> maxTotalChars" by (simp add: maxTotalChars_def)
  qed
  then have "taken ?s 0 = length ?s" by (rule taken_all)
  then show ?thesis by simp
qed

text \<open>
  Claim C4, as amended. Let the files of a hotspot be taken in ascending order of size,
  and count for each file its content as it is serialized: the content itself when it
  has at most 8000 characters, its first 8000 characters and the marker otherwise. If
  the first \<open>k\<close> files count more than 100000 characters, the first \<open>k - 1\<close> do not, and
  files remain after them (\<open>0 < k < n\<close>), then the prompt is the heading, the blocks of
  these \<open>k\<close> files, each whole, one line with the number \<open>n - k\<close> of files left out, and
  the closing request: nothing of the other files. If the files but the last do not
  count more than 100000 characters, and so for every hotspot of at most 13 files, the
  prompt is the heading, the blocks of all the files and the closing request, with no
  such line, whatever the total size of the contents.
\<close>

theorem prompt_budget:
  "let sorted = sort_key size_bytes (files hotspot);
       n = length (files hotspot);
       body = (\<lambda>f. if length (content f) \<le> 8000 then content f
                     else take 8000 (content f) @ nl # ''... [truncated]'');
       block = (\<lambda>f. nl # ''### File: '' @ path f @ nl # ''```''
                       @ (if drop 1 (extension f) = [] then ''text'' else drop 1 (extension f))
                       @ nl # body f @ nl # ''```'');
       total = (\<lambda>j. sum_list (map (\<lambda>f. length (body f)) (take j sorted)));
       heading = ''Analyze these '' @ category_string (category hotspot)
                   @ '' files for security vulnerabilities:'' @ [nl, nl];
       closing = [nl, nl] @ ''Respond with a JSON object containing your findings.''
   in (0 < k \<and> k < n \<and> total (k - 1) \<le> 100000 \<and> 100000 < total k
        \<longrightarrow> buildUserPrompt hotspot
              = heading @ concat (map (\<lambda>f. block f @ [nl]) (take k sorted))
                  @ (nl # ''... and '' @ show_int (int n - int k) @ '' more files (truncated for size)'')
                  @ closing)
    \<and> (0 < n \<and> (total (n - 1) \<le> 100000 \<or> n \<le> 13)
        \<longrightarrow> buildUserPrompt hotspot
              = heading @ concat (map (\<lambda>f. block f @ [nl]) (butlast sorted)) @ block (last sorted)
                  @ closing)
    \<and> (n = 0 \<longrightarrow> buildUserPrompt hotspot = heading @ closing)"
proof -
  let ?s = "sort_key size_bytes (files hotspot)"
  let ?n = "length (files hotspot)"
  let ?heading = "''Analyze these '' @ category_string (category hotspot)
                   @ '' files for security vulnerabilities:'' @ [nl, nl]"
  let ?closing = "[nl, nl] @ ''Respond with a JSON object containing your findings.''"
  have cut: "buildUserPrompt hotspot
      = ?heading @ concat (map (\<lambda>f. serialized f @ [nl]) (take k ?s))
          @ omitted_line (int ?n - int k) @ ?closing"
    if "0 < k \<and> k < ?n \<and> running_total ?s (k - 1) \<le> 100000 \<and> 100000 < running_total ?s k"
  proof -
    from that have "taken ?s 0 = k" by (intro taken_by_total) simp_all
    with that show ?thesis by (simp add: buildUserPrompt_def formatFilesForPrompt_cut)
  qed
  have every: "buildUserPrompt hotspot
      = ?heading @ concat (map (\<lambda>f. serialized f @ [nl]) (butlast ?s)) @ serialized (last ?s)
          @ ?closing"
    if "0 < ?n \<and> (running_total ?s (?n - 1) \<le> 100000 \<or> ?n \<le> 13)"
  proof -
    from that have "running_total ?s (?n - 1) \<le> 100000" using running_total_small by blast
    then have "taken ?s 0 = ?n" by (rule taken_all_by_total)
    with that show ?thesis by (simp add: buildUserPrompt_def formatFilesForPrompt_all)
  qed
  have none: "buildUserPrompt hotspot = ?heading @ ?closing" if "?n = 0"
    using that by (simp add: buildUserPrompt_def formatFilesForPrompt_none)
  show ?thesis
    unfolding Let_def
    using cut every none
    unfolding serialized_def file_block_def truncateContent_def omitted_line_def running_total_def
    by blast
qed

lemma butlast_replicate_same: "butlast (replicate n x) = replicate (n - 1) x"
proof (cases n)
  case 0
  then show ?thesis by simp
next
  case (Suc m)
  have "replicate (Suc m) x = replicate m x @ [x]" by (simp add: replicate_append_same)
  then have "butlast (replicate (Suc m) x) = replicate m x" by (simp only: butlast_snoc)
  with Suc show ?thesis by simp
qed

lemma show_int_1: "show_int 1 = ''1''"
  by code_simp

theorem prompt_budget_witness:
  "length (content (sample_file 8000)) = 8000
   \<and> buildUserPrompt \<lparr> category = Auth, files = replicate 14 (sample_file 8000),
                        priority = Critical, reason = '''' \<rparr>
       = ''Analyze these auth files for security vulnerabilities:'' @ [nl, nl]
           @ concat (replicate 13 (nl # ''### File: a.ts'' @ nl # ''```ts''
                                     @ nl # replicate 8000 CHR ''a'' @ nl # ''```'' @ [nl]))
           @ nl # ''... and 1 more files (truncated for size)''
           @ [nl, nl] @ ''Respond with a JSON object containing your findings.''
   \<and> buildUserPrompt \<lparr> category = Auth, files = replicate 13 (sample_file 8000),
                        priority = Critical, reason = '''' \<rparr>
       = ''Analyze these auth files for security vulnerabilities:'' @ [nl, nl]
           @ concat (replicate 12 (nl # ''### File: a.ts'' @ nl # ''```ts''
                                     @ nl # replicate 8000 CHR ''a'' @ nl # ''```'' @ [nl]))
           @ nl # ''### File: a.ts'' @ nl # ''```ts'' @ nl # replicate 8000 CHR ''a'' @ nl # ''```''
           @ [nl, nl] @ ''Respond with a JSON object containing your findings.''
   \<and> buildUserPrompt \<lparr> category = Auth, files = [], priority = Critical, reason = '''' \<rparr>
       = ''Analyze these auth files for security vulnerabilities:'' @ [nl, nl]
           @ [nl, nl] @ ''Respond with a JSON object containing your findings.''"
proof -
  let ?h14 = "\<lparr> category = Auth, files = replicate 14 (sample_file 8000),
                priority = Critical, reason = '''' \<rparr>"
  let ?h13 = "\<lparr> category = Auth, files = replicate 13 (sample_file 8000),
                priority = Critical, reason = '''' \<rparr>"
  let ?h0 = "\<lparr> category = Auth, files = [], priority = Critical, reason = '''' \<rparr>"
  have a: "length (content (sample_file 8000)) = 8000" by (simp add: sample_file_def)
  have b: "buildUserPrompt ?h14
       = ''Analyze these auth files for security vulnerabilities:'' @ [nl, nl]
           @ concat (replicate 13 (nl # ''### File: a.ts'' @ nl # ''```ts''
                                     @ nl # replicate 8000 CHR ''a'' @ nl # ''```'' @ [nl]))
           @ nl # ''... and 1 more files (truncated for size)''
           @ [nl, nl] @ ''Respond with a JSON object containing your findings.''"
    using prompt_budget [where k = 13 and hotspot = ?h14]
    by (simp add: Let_def sort_key_replicate sample_file_def sum_list_replicate show_int_1)
  have c: "buildUserPrompt ?h13
       = ''Analyze these auth files for security vulnerabilities:'' @ [nl, nl]
           @ concat (replicate 12 (nl # ''### File: a.ts'' @ nl # ''```ts''
                                     @ nl # replicate 8000 CHR ''a'' @ nl # ''```'' @ [nl]))
           @ nl # ''### File: a.ts'' @ nl # ''```ts'' @ nl # replicate 8000 CHR ''a'' @ nl # ''```''
           @ [nl, nl] @ ''Respond with a JSON object containing your findings.''"
    using prompt_budget [where k = 0 and hotspot = ?h13]
    by (simp add: Let_def sort_key_replicate sample_file_def sum_list_replicate
        butlast_replicate_same)
  have d: "buildUserPrompt ?h0
       = ''Analyze these auth files for security vulnerabilities:'' @ [nl, nl]
           @ [nl, nl] @ ''Respond with a JSON object containing your findings.''"
    using prompt_budget [where k = 0 and hotspot = ?h0] by (simp add: Let_def)
  show ?thesis using a b c d by blast
qed

lemma includes_str_chars: "includes_str s p \<Longrightarrow> set p \<subseteq> set s"
proof -
  have suffix: "t \<in> set (tails s) \<Longrightarrow> set t \<subseteq> set s" for t
    by (induction s) auto
  assume "includes_str s p"
  then obtain t where t: "t \<in> set (tails s)" "take (length p) t = p"
    by (auto simp: includes_str_def startsWith_def list_ex_iff)
  from t(2) have "set p \<subseteq> set t" by (metis set_take_subset)
  with suffix [OF t(1)] show ?thesis by blast
qed

text \<open>
  Claim C4 as stated fails: a hotspot with one file of 100001 characters has more than
  100000 characters of content; its prompt serializes that one file, cut at 8000
  characters, which is every file of the hotspot and not fewer, and has no line about
  omitted files.
\<close>

theorem prompt_budget_counterexample:
  "100000 < sum_list (map (\<lambda>f. length (content f)) [sample_file 100001])
   \<and> buildUserPrompt \<lparr> category = Auth, files = [sample_file 100001], priority = Critical,
                        reason = '''' \<rparr>
       = ''Analyze these auth files for security vulnerabilities:'' @ [nl, nl]
           @ nl # ''### File: a.ts'' @ nl # ''```ts''
           @ nl # replicate 8000 CHR ''a'' @ nl # ''... [truncated]'' @ nl # ''```''
           @ [nl, nl] @ ''Respond with a JSON object containing your findings.''
   \<and> \<not> includes_str
          (buildUserPrompt \<lparr> category = Auth, files = [sample_file 100001], priority = Critical,
                             reason = '''' \<rparr>)
          ''more files (truncated for size)''"
proof -
  let ?h = "\<lparr> category = Auth, files = [sample_file 100001], priority = Critical, reason = '''' \<rparr>"
  have a: "100000 < sum_list (map (\<lambda>f. length (content f)) [sample_file 100001])"
    by (simp add: sample_file_def)
  have b: "buildUserPrompt ?h
       = ''Analyze these auth files for security vulnerabilities:'' @ [nl, nl]
           @ nl # ''### File: a.ts'' @ nl # ''```ts''
           @ nl # replicate 8000 CHR ''a'' @ nl # ''... [truncated]'' @ nl # ''```''
           @ [nl, nl] @ ''Respond with a JSON object containing your findings.''"
    by (simp add: buildUserPrompt_def formatFilesForPrompt_def formatParts_def maxTotalChars_def
        file_block_def truncateContent_def sample_file_def Let_def)
  have m: "CHR ''m'' \<notin> set (buildUserPrompt ?h)"
    unfolding b by simp
  have c: "\<not> includes_str (buildUserPrompt ?h) ''more files (truncated for size)''"
  proof
    assume "includes_str (buildUserPrompt ?h) ''more files (truncated for size)''"
    then have "set ''more files (truncated for size)'' \<subseteq> set (buildUserPrompt ?h)"
      by (rule includes_str_chars)
    then have "CHR ''m'' \<in> set (buildUserPrompt ?h)" by simp
    with m show False by simp
  qed
  show ?thesis using a b c by blast
qed

text \<open>
  Claim C8. The body serialized for a file is its content as \<open>truncateContent\<close> gives it:
  never longer than 8000 characters and the marker, the content itself when that has at
  most 8000 characters, and otherwise its first 8000 characters followed by the marker
  \<open>... [truncated]\<close> on a line of its own. The prompt of a hotspot is the heading, the
  blocks of the first \<open>k\<close> files in ascending order of size (at least one, when there is
  a file), the line about omitted files when files remain, and the closing request; the
  block of a file is its path, its extension and, between the fences, that body.
\<close>

theorem truncation_bound:
  "length (truncateContent c 8000) \<le> 8000 + length (nl # ''... [truncated]'')
   \<and> (length c \<le> 8000 \<longrightarrow> truncateContent c 8000 = c)
   \<and> (8000 < length c \<longrightarrow> truncateContent c 8000 = take 8000 c @ nl # ''... [truncated]'')
   \<and> (let sorted = sort_key size_bytes (files hotspot);
           n = length (files hotspot);
           body = (\<lambda>f. if length (content f) \<le> 8000 then content f
                         else take 8000 (content f) @ nl # ''... [truncated]'');
           block = (\<lambda>f. nl # ''### File: '' @ path f @ nl # ''```''
                           @ (if drop 1 (extension f) = [] then ''text'' else drop 1 (extension f))
                           @ nl # body f @ nl # ''```'');
           heading = ''Analyze these '' @ category_string (category hotspot)
                       @ '' files for security vulnerabilities:'' @ [nl, nl];
           closing = [nl, nl] @ ''Respond with a JSON object containing your findings.''
       in \<exists>k \<le> n.
            (0 < n \<longrightarrow> 0 < k)
          \<and> buildUserPrompt hotspot
              = heading
                  @ (if k < n
                     then concat (map (\<lambda>f. block f @ [nl]) (take k sorted))
                            @ (nl # ''... and '' @ show_int (int n - int k)
                                 @ '' more files (truncated for size)'')
                     else if n = 0 then []
                     else concat (map (\<lambda>f. block f @ [nl]) (butlast sorted)) @ block (last sorted))
                  @ closing)"
proof -
  let ?s = "sort_key size_bytes (files hotspot)"
  let ?n = "length (files hotspot)"
  let ?k = "taken ?s 0"
  let ?heading = "''Analyze these '' @ category_string (category hotspot)
                   @ '' files for security vulnerabilities:'' @ [nl, nl]"
  let ?closing = "[nl, nl] @ ''Respond with a JSON object containing your findings.''"
  have le: "?k \<le> ?n" using taken_le [of ?s 0] by simp
  have pos: "0 < ?k" if "0 < ?n"
  proof -
    from that have "?s \<noteq> []" by (metis length_0_conv length_sort less_numeral_extra(3))
    then show ?thesis by (intro taken_pos) simp_all
  qed
  have files: "formatFilesForPrompt (files hotspot)
      = (if ?k < ?n
         then concat (map (\<lambda>f. serialized f @ [nl]) (take ?k ?s)) @ omitted_line (int ?n - int ?k)
         else if ?n = 0 then []
         else concat (map (\<lambda>f. serialized f @ [nl]) (butlast ?s)) @ serialized (last ?s))"
  proof (cases "?k < ?n")
    case True
    then show ?thesis by (simp add: formatFilesForPrompt_cut)
  next
    case False
    with le have k: "?k = ?n" by simp
    show ?thesis
    proof (cases "?n = 0")
      case True
      then show ?thesis by (simp add: formatFilesForPrompt_none)
    next
      case False
      with k show ?thesis by (simp add: formatFilesForPrompt_all)
    qed
  qed
  have prompt: "\<exists>k \<le> ?n. (0 < ?n \<longrightarrow> 0 < k)
      \<and> buildUserPrompt hotspot
          = ?heading
              @ (if k < ?n
                 then concat (map (\<lambda>f. serialized f @ [nl]) (take k ?s)) @ omitted_line (int ?n - int k)
                 else if ?n = 0 then []
                 else concat (map (\<lambda>f. serialized f @ [nl]) (butlast ?s)) @ serialized (last ?s))
              @ ?closing"
  proof (intro exI conjI)
    show "?k \<le> ?n" by (rule le)
    show "0 < ?n \<longrightarrow> 0 < ?k" using pos by blast
    show "buildUserPrompt hotspot
          = ?heading
              @ (if ?k < ?n
                 then concat (map (\<lambda>f. serialized f @ [nl]) (take ?k ?s)) @ omitted_line (int ?n - int ?k)
                 else if ?n = 0 then []
                 else concat (map (\<lambda>f. serialized f @ [nl]) (butlast ?s)) @ serialized (last ?s))
              @ ?closing"
      unfolding files [symmetric] by (simp add: buildUserPrompt_def)
  qed
  have cuts: "length (truncateContent c 8000) \<le> 8000 + length (nl # ''... [truncated]'')
      \<and> (length c \<le> 8000 \<longrightarrow> truncateContent c 8000 = c)
      \<and> (8000 < length c \<longrightarrow> truncateContent c 8000 = take 8000 c @ nl # ''... [truncated]'')"
    by (simp add: truncateContent_def)
  from prompt have "\<exists>k \<le> ?n. (0 < ?n \<longrightarrow> 0 < k)
      \<and> buildUserPrompt hotspot
          = ?heading
              @ (if k < ?n
                 then concat (map (\<lambda>f.
                          (nl # ''### File: '' @ path f @ nl # ''```''
                             @ (if drop 1 (extension f) = [] then ''text'' else drop 1 (extension f))
                             @ nl # (if length (content f) \<le> 8000 then content f
                                     else take 8000 (content f) @ nl # ''... [truncated]'')
                             @ nl # ''```'') @ [nl]) (take k ?s))
                        @ (nl # ''... and '' @ show_int (int ?n - int k)
                             @ '' more files (truncated for size)'')
                 else if ?n = 0 then []
                 else concat (map (\<lambda>f.
                          (nl # ''### File: '' @ path f @ nl # ''```''
                             @ (if drop 1 (extension f) = [] then ''text'' else drop 1 (extension f))
                             @ nl # (if length (content f) \<le> 8000 then content f
                                     else take 8000 (content f) @ nl # ''... [truncated]'')
                             @ nl # ''```'') @ [nl]) (butlast ?s))
                        @ (nl # ''### File: '' @ path (last ?s) @ nl # ''```''
                             @ (if drop 1 (extension (last ?s)) = [] then ''text''
                                else drop 1 (extension (last ?s)))
                             @ nl # (if length (content (last ?s)) \<le> 8000 then content (last ?s)
                                     else take 8000 (content (last ?s)) @ nl # ''... [truncated]'')
                             @ nl # ''```''))
              @ ?closing"
    unfolding serialized_def file_block_def truncateContent_def omitted_line_def .
  with cuts show ?thesis unfolding Let_def by blast
qed

theorem truncation_bound_witness:
  "length ''short'' \<le> 8000
   \<and> truncateContent ''short'' 8000 = ''short''
   \<and> 8000 < length (replicate 8001 CHR ''a'')
   \<and> truncateContent (replicate 8001 CHR ''a'') 8000 = replicate 8000 CHR ''a'' @ nl # ''... [truncated]''
   \<and> buildUserPrompt \<lparr> category = Auth, files = [sample_file 3], priority = Critical,
                        reason = '''' \<rparr>
       = ''Analyze these auth files for security vulnerabilities:'' @ [nl, nl]
           @ nl # ''### File: a.ts'' @ nl # ''```ts'' @ nl # ''aaa'' @ nl # ''```''
           @ [nl, nl] @ ''Respond with a JSON object containing your findings.''
   \<and> buildUserPrompt \<lparr> category = Auth, files = [sample_file 8001], priority = Critical,
                        reason = '''' \<rparr>
       = ''Analyze these auth files for security vulnerabilities:'' @ [nl, nl]
           @ nl # ''### File: a.ts'' @ nl # ''```ts''
           @ nl # replicate 8000 CHR ''a'' @ nl # ''... [truncated]'' @ nl # ''```''
           @ [nl, nl] @ ''Respond with a JSON object containing your findings.''"
proof -
  let ?h3 = "\<lparr> category = Auth, files = [sample_file 3], priority = Critical, reason = '''' \<rparr>"
  let ?h = "\<lparr> category = Auth, files = [sample_file 8001], priority = Critical, reason = '''' \<rparr>"
  note inst1 = truncation_bound [where c = "''short''" and hotspot = ?h3]
  note inst2 = truncation_bound [where c = "replicate 8001 CHR ''a''" and hotspot = ?h]
  have a: "truncateContent ''short'' 8000 = ''short''" using inst1 by simp
  have b: "truncateContent (replicate 8001 CHR ''a'') 8000 = replicate 8000 CHR ''a'' @ nl # ''... [truncated]''"
    using inst2 by simp
  have one: "k = 1" if "k \<le> 1" "0 < k" for k :: nat using that by simp
  from inst1 have c: "buildUserPrompt ?h3
       = ''Analyze these auth files for security vulnerabilities:'' @ [nl, nl]
           @ nl # ''### File: a.ts'' @ nl # ''```ts'' @ nl # ''aaa'' @ nl # ''```''
           @ [nl, nl] @ ''Respond with a JSON object containing your findings.''"
    by (auto simp: Let_def sample_file_def numeral_3_eq_3 dest: one)
  from inst2 have d: "buildUserPrompt ?h
       = ''Analyze these auth files for security vulnerabilities:'' @ [nl, nl]
           @ nl # ''### File: a.ts'' @ nl # ''```ts''
           @ nl # replicate 8000 CHR ''a'' @ nl # ''... [truncated]'' @ nl # ''```''
           @ [nl, nl] @ ''Respond with a JSON object containing your findings.''"
    by (auto simp: Let_def sample_file_def dest: one)
  show ?thesis using a b c d by simp
qed

subsection \<open>The npm audit adapter\<close>

lemma cveIds_transformEntry: "cveIds (transformEntry e) = []"
  by (simp add: transformEntry_def Let_def)

lemma cveIds_transformAuditResult: "v \<in> set (transformAuditResult result) \<Longrightarrow> cveIds v = []"
  by (auto simp: transformAuditResult_def cveIds_transformEntry)

lemma audit_vulnerabilities_failure: "audit_vulnerabilities (audit_failure msg) = []"
  by (simp add: audit_failure_def)

lemma audit_vulnerabilities_report:
  "audit_vulnerabilities (audit_of_report result) = transformAuditResult result"
  by (simp add: audit_of_report_def)

lemma cveIds_runNpmAudit:
  "\<forall>v \<in> set (audit_vulnerabilities (runNpmAudit w dir dev)). cveIds v = []"
  unfolding runNpmAudit_def Let_def
  by (simp add: audit_vulnerabilities_failure audit_vulnerabilities_report cveIds_transformAuditResult
      split: exec_outcome.split sum.split option.split)

lemma cveIds_audit_step: "\<forall>v \<in> set (fst (audit_step aw basePath ctx)). cveIds v = []"
  using cveIds_runNpmAudit [of aw _ False]
  by (auto simp: audit_step_def Let_def split: option.split)

lemma executeScanCodebase_Inr:
  assumes "executeScanCodebase w input = Inr (res, calls)"
  shows "\<exists>fs basePath ctx.
           get_files w input = Inr (fs, basePath) \<and> fs \<noteq> []
           \<and> detectProjectContext (JSON_parse w) fs = Inr ctx
           \<and> projectContext res = ctx
           \<and> dependencyVulnerabilities res = fst (audit_step (audit w) basePath ctx)
           \<and> calls = snd (audit_step (audit w) basePath ctx)"
proof -
  obtain fs basePath where g: "get_files w input = Inr (fs, basePath)"
    using assms by (cases "get_files w input") (auto simp: executeScanCodebase_def)
  have ne: "fs \<noteq> []"
    using assms by (simp add: executeScanCodebase_def g split: if_splits)
  obtain ctx where c: "detectProjectContext (JSON_parse w) fs = Inr ctx"
    using assms by (cases "detectProjectContext (JSON_parse w) fs")
      (auto simp: executeScanCodebase_def g ne)
  have "projectContext res = ctx
      \<and> dependencyVulnerabilities res = fst (audit_step (audit w) basePath ctx)
      \<and> calls = snd (audit_step (audit w) basePath ctx)"
    using assms by (simp add: executeScanCodebase_def g ne c Let_def split_beta) auto
  with g ne c show ?thesis by blast
qed

text \<open>
  Claim C10. Every vulnerability that \<open>transformAuditResult\<close> makes of a report, and so
  every vulnerability in the response of \<open>runNpmAudit\<close> and in the result of a scan, has
  an empty \<open>cveIds\<close>.
\<close>

theorem cveIds_always_empty:
  "(\<forall>v \<in> set (transformAuditResult result). cveIds v = [])
   \<and> (\<forall>v \<in> set (audit_vulnerabilities (runNpmAudit aw dir dev)). cveIds v = [])
   \<and> (\<forall>res calls. executeScanCodebase w input = Inr (res, calls) \<longrightarrow>
         (\<forall>v \<in> set (dependencyVulnerabilities res). cveIds v = []))"
proof (intro conjI allI impI ballI)
  fix v assume "v \<in> set (transformAuditResult result)"
  then show "cveIds v = []" by (rule cveIds_transformAuditResult)
next
  fix v assume "v \<in> set (audit_vulnerabilities (runNpmAudit aw dir dev))"
  then show "cveIds v = []" using cveIds_runNpmAudit by blast
next
  fix res calls v
  assume "executeScanCodebase w input = Inr (res, calls)"
    and v: "v \<in> set (dependencyVulnerabilities res)"
  then obtain basePath ctx
    where "dependencyVulnerabilities res = fst (audit_step (audit w) basePath ctx)"
    using executeScanCodebase_Inr by blast
  with v show "cveIds v = []" using cveIds_audit_step [of "audit w" basePath ctx] by simp
qed

theorem cveIds_always_empty_witness:
  "transformEntry (hd (vulnerabilities sample_report)) \<in> set (transformAuditResult sample_report)
   \<and> cveIds (transformEntry (hd (vulnerabilities sample_report))) = []
   \<and> audit_vulnerabilities (runNpmAudit sample_audit_world ''/repo'' False)
       = [transformEntry (hd (vulnerabilities sample_report))]
   \<and> packageName (transformEntry (hd (vulnerabilities sample_report))) = ''lodash''
   \<and> title (transformEntry (hd (vulnerabilities sample_report))) = ''HIGH: lodash''
   \<and> dv_description (transformEntry (hd (vulnerabilities sample_report))) = ''minimist''
   \<and> patchedVersion (transformEntry (hd (vulnerabilities sample_report))) = Some ''4.17.21''"
proof -
  let ?v = "transformEntry (hd (vulnerabilities sample_report))"
  have a: "?v \<in> set (transformAuditResult sample_report)"
    by (simp add: transformAuditResult_def sample_report_def)
  with cveIds_always_empty [of sample_report] have b: "cveIds ?v = []" by blast
  have c: "audit_vulnerabilities (runNpmAudit sample_audit_world ''/repo'' False) = [?v]"
    by (simp add: runNpmAudit_def sample_audit_world_def joinPath_def audit_of_report_def
        transformAuditResult_def sample_report_def)
  have d: "packageName ?v = ''lodash'' \<and> title ?v = ''HIGH: lodash''
      \<and> dv_description ?v = ''minimist'' \<and> patchedVersion ?v = Some ''4.17.21''"
    by (simp add: transformEntry_def sample_report_def Let_def) code_simp
  show ?thesis using a b c d by simp
qed

subsection \<open>The CWE client\<close>















subsection \<open>Parsing the response\<close>

lemma dropWhile_keeps:
  "\<not> P x \<Longrightarrow> \<exists>a'. dropWhile P (a @ x # ys) = a' @ x # ys"
  by (induction a) auto

lemma match_braces_None_iff:
  "match_braces response = None \<longleftrightarrow> \<not> (\<exists>a b c. response = a @ ''{'' @ b @ ''}'' @ c)"
proof
  assume none: "match_braces response = None"
  show "\<not> (\<exists>a b c. response = a @ ''{'' @ b @ ''}'' @ c)"
  proof
    assume "\<exists>a b c. response = a @ ''{'' @ b @ ''}'' @ c"
    then obtain a b c where r: "response = a @ CHR ''{'' # (b @ CHR ''}'' # c)" by auto
    obtain a' where t: "dropWhile (\<lambda>ch. ch \<noteq> CHR ''{'') response = a' @ CHR ''{'' # (b @ CHR ''}'' # c)"
      unfolding r using dropWhile_keeps [of "\<lambda>ch. ch \<noteq> CHR ''{''" "CHR ''{''" a "b @ CHR ''}'' # c"]
      by auto
    have "CHR ''}'' \<in> set (tl (a' @ CHR ''{'' # (b @ CHR ''}'' # c)))"
      by (cases a') auto
    with t have "match_braces response \<noteq> None"
      by (simp add: match_braces_def Let_def)
    with none show False by simp
  qed
next
  assume no: "\<not> (\<exists>a b c. response = a @ ''{'' @ b @ ''}'' @ c)"
  show "match_braces response = None"
  proof (rule ccontr)
    assume "match_braces response \<noteq> None"
    let ?t = "dropWhile (\<lambda>ch. ch \<noteq> CHR ''{'') response"
    from \<open>match_braces response \<noteq> None\<close> have ne: "?t \<noteq> []" and cl: "CHR ''}'' \<in> set (tl ?t)"
      by (auto simp: match_braces_def Let_def split: if_splits)
    from ne have "hd ?t = CHR ''{''" using hd_dropWhile [of "\<lambda>ch. ch \<noteq> CHR ''{''" response] by simp
    with ne have t: "?t = CHR ''{'' # tl ?t" by (cases ?t) auto
    from cl obtain b c where "tl ?t = b @ CHR ''}'' # c" by (auto dest: split_list)
    with t have "?t = CHR ''{'' # b @ CHR ''}'' # c" by simp
    then have "response = takeWhile (\<lambda>ch. ch \<noteq> CHR ''{'') response @ ''{'' @ b @ ''}'' @ c"
      using takeWhile_dropWhile_id [of "\<lambda>ch. ch \<noteq> CHR ''{''" response] by simp
    with no show False by blast
  qed
qed

lemma match_braces_example: "match_braces example_response = Some example_object"
  by (simp add: match_braces_def example_response_def example_object_def)

text \<open>
  Claim C6. \<open>parseAIResponse\<close> is a total function to a response; every exception of
  the \<open>try\<close> block ends in the \<open>catch\<close>. On the example, where \<open>JSON.parse\<close> gives the
  object of the text between the braces, the findings are empty and the summary is
  \<open>ok\<close>. A response with no \<open>{\<close> followed later by a \<open>}\<close>, such as \<open>not json at all\<close>,
  and a response whose text from the first \<open>{\<close> to the last \<open>}\<close> does not parse, give no
  findings and a diagnostic summary.
\<close>

theorem parseAIResponse_total:
  "(parse example_object
      = Some (JObject [(''findings'', JArray []), (''summary'', JString ''ok'')])
    \<longrightarrow> parseAIResponse parse example_response
          = \<lparr> findings = [], summary = JString ''ok'' \<rparr>)
   \<and> (\<not> (\<exists>a b c. response = a @ ''{'' @ b @ ''}'' @ c)
    \<longrightarrow> parseAIResponse parse response
          = \<lparr> findings = [], summary = JString ''Could not parse AI response'' \<rparr>)
   \<and> (\<forall>m. match_braces response = Some m \<and> parse m = None
    \<longrightarrow> parseAIResponse parse response
          = \<lparr> findings = [], summary = JString ''Could not parse AI response as JSON'' \<rparr>)
   \<and> parseAIResponse parse ''not json at all''
        = \<lparr> findings = [], summary = JString ''Could not parse AI response'' \<rparr>"
proof (intro conjI impI allI)
  assume "parse example_object
      = Some (JObject [(''findings'', JArray []), (''summary'', JString ''ok'')])"
  then show "parseAIResponse parse example_response = \<lparr> findings = [], summary = JString ''ok'' \<rparr>"
    by (simp add: parseAIResponse_def match_braces_example parse_matched_def)
next
  assume "\<not> (\<exists>a b c. response = a @ ''{'' @ b @ ''}'' @ c)"
  then have "match_braces response = None" using match_braces_None_iff by blast
  then show "parseAIResponse parse response
          = \<lparr> findings = [], summary = JString ''Could not parse AI response'' \<rparr>"
    by (simp add: parseAIResponse_def)
next
  fix m assume "match_braces response = Some m \<and> parse m = None"
  then show "parseAIResponse parse response
          = \<lparr> findings = [], summary = JString ''Could not parse AI response as JSON'' \<rparr>"
    by (simp add: parseAIResponse_def parse_matched_def)
next
  have "match_braces ''not json at all'' = None" by (simp add: match_braces_def)
  then show "parseAIResponse parse ''not json at all''
        = \<lparr> findings = [], summary = JString ''Could not parse AI response'' \<rparr>"
    by (simp add: parseAIResponse_def)
qed

theorem parseAIResponse_total_witness:
  "example_parse example_object = Some (JObject [(''findings'', JArray []), (''summary'', JString ''ok'')])
   \<and> parseAIResponse example_parse example_response = \<lparr> findings = [], summary = JString ''ok'' \<rparr>
   \<and> parseAIResponse example_parse ''no braces here''
       = \<lparr> findings = [], summary = JString ''Could not parse AI response'' \<rparr>
   \<and> match_braces ''so {oops} it is'' = Some ''{oops}''
   \<and> example_parse ''{oops}'' = None
   \<and> parseAIResponse example_parse ''so {oops} it is''
       = \<lparr> findings = [], summary = JString ''Could not parse AI response as JSON'' \<rparr>"
proof -
  have a: "example_parse example_object
      = Some (JObject [(''findings'', JArray []), (''summary'', JString ''ok'')])"
    by (simp add: example_parse_def)
  have b: "parseAIResponse example_parse example_response = \<lparr> findings = [], summary = JString ''ok'' \<rparr>"
    using parseAIResponse_total [of example_parse] a by blast
  have "match_braces ''no braces here'' = None" by (simp add: match_braces_def)
  then have "\<not> (\<exists>a b c. ''no braces here'' = a @ ''{'' @ b @ ''}'' @ c)"
    using match_braces_None_iff by blast
  then have c: "parseAIResponse example_parse ''no braces here''
       = \<lparr> findings = [], summary = JString ''Could not parse AI response'' \<rparr>"
    using parseAIResponse_total [of example_parse "''no braces here''"] by blast
  have d: "match_braces ''so {oops} it is'' = Some ''{oops}''" by (simp add: match_braces_def)
  have e: "example_parse ''{oops}'' = None" by (simp add: example_parse_def example_object_def)
  have f: "parseAIResponse example_parse ''so {oops} it is''
       = \<lparr> findings = [], summary = JString ''Could not parse AI response as JSON'' \<rparr>"
    using parseAIResponse_total [of example_parse "''so {oops} it is''"] d e by blast
  show ?thesis using a b c d e f by simp
qed

subsection \<open>The file reader and the audit of a scan\<close>


















end
